theory Spec2Isabelle
  imports Complex_Main
begin

section \<open>The checklist mapper of hdf-converters\<close>

text \<open>
  A shallow embedding of the checklist (STIG \<^verbatim>\<open>.ckl\<close>) mapper: the transformer functions
  \<^verbatim>\<open>transformImpact\<close>, \<^verbatim>\<open>findSeverity\<close>, \<^verbatim>\<open>getStatus\<close> and \<^verbatim>\<open>parseFindingDetails\<close>, and the
  method \<^verbatim>\<open>ChecklistResults.toHdf\<close> with its parent-profile aggregation.
\<close>

subsection \<open>JavaScript values and strings\<close>

text \<open>
  A property of a JavaScript object may be missing (\<^verbatim>\<open>undefined\<close>), \<^verbatim>\<open>null\<close>, or hold a value.
\<close>

datatype 'a optional = Undefined | Null | Defined 'a

text \<open>
  Strings are modelled as \<^typ>\<open>string\<close>, one \<^typ>\<open>char\<close> for one code unit of the JavaScript
  string, which covers the strings of code units below 256. The functions below are the
  String.prototype methods the mapper calls.
\<close>

text \<open>
  Truthiness of a string-valued property: missing, null and the empty string are falsy.
  In the functions below a test \<^verbatim>\<open>if (x)\<close> on such a property is a case distinction on
  the property with the test \<open>s \<noteq> []\<close> in the case \<open>Defined s\<close>.
\<close>

fun truthy :: "string optional \<Rightarrow> bool" where
  "truthy Undefined = False"
| "truthy Null = False"
| "truthy (Defined s) = (s \<noteq> [])"

text \<open>
  \<^verbatim>\<open>toLowerCase\<close>: the letters A to Z are mapped to a to z. Every other character is
  kept; the words the mapper compares a lower-cased string with consist of the letters
  a to z without k, and on such words this agrees with the Unicode lower-casing of
  JavaScript (whose only non-ASCII character with an ASCII letter as image is the Kelvin
  sign, mapped to k).
\<close>

definition toLowerCase_char :: "char \<Rightarrow> char" where
  "toLowerCase_char c =
     (case map_of (zip ''ABCDEFGHIJKLMNOPQRSTUVWXYZ'' ''abcdefghijklmnopqrstuvwxyz'') c of
        Some l \<Rightarrow> l
      | None \<Rightarrow> c)"

definition toLowerCase :: "string \<Rightarrow> string" where
  "toLowerCase s = map toLowerCase_char s"

text \<open>\<^verbatim>\<open>startsWith\<close>: the first string begins with the second.\<close>

fun startsWith :: "string \<Rightarrow> string \<Rightarrow> bool" where
  "startsWith s [] = True"
| "startsWith [] (p # ps) = False"
| "startsWith (c # cs) (p # ps) = (c = p \<and> startsWith cs ps)"

text \<open>
  \<^verbatim>\<open>s.indexOf(needle)\<close>: the index of the first occurrence of the needle, or -1.
\<close>

fun indexOfFrom :: "int \<Rightarrow> string \<Rightarrow> string \<Rightarrow> int" where
  "indexOfFrom i [] needle = (if needle = [] then i else - 1)"
| "indexOfFrom i (c # cs) needle =
     (if startsWith (c # cs) needle then i else indexOfFrom (i + 1) cs needle)"

definition indexOf :: "string \<Rightarrow> string \<Rightarrow> int" where
  "indexOf s needle = indexOfFrom 0 s needle"

text \<open>
  \<^verbatim>\<open>s.slice(start, end)\<close> and \<^verbatim>\<open>s.slice(start)\<close>: a negative index counts from the end
  of the string, and both indices are clamped to the string.
\<close>

definition sliceIndex :: "string \<Rightarrow> int \<Rightarrow> nat" where
  "sliceIndex s i =
     (if i < 0 then nat (max (int (length s) + i) 0) else nat (min i (int (length s))))"

definition slice :: "string \<Rightarrow> int \<Rightarrow> int \<Rightarrow> string" where
  "slice s start end =
     take (sliceIndex s end - sliceIndex s start) (drop (sliceIndex s start) s)"

definition sliceFrom :: "string \<Rightarrow> int \<Rightarrow> string" where
  "sliceFrom s start = drop (sliceIndex s start) s"

text \<open>
  \<^verbatim>\<open>s.split(separator)\<close> for a string separator: the pieces between the non-overlapping
  occurrences of the separator, found from left to right. With the empty separator the
  string is split into its characters.
\<close>

fun splitAcc :: "string \<Rightarrow> string \<Rightarrow> string \<Rightarrow> string list" where
  "splitAcc sep piece [] = [rev piece]"
| "splitAcc sep piece (c # cs) =
     (if sep \<noteq> [] \<and> startsWith (c # cs) sep
      then rev piece # splitAcc sep [] (drop (length sep - 1) cs)
      else splitAcc sep (c # piece) cs)"

definition split :: "string \<Rightarrow> string \<Rightarrow> string list" where
  "split s sep = (if sep = [] then map (\<lambda>c. [c]) s else splitAcc sep [] s)"

text \<open>
  \<^verbatim>\<open>pieces.join(separator)\<close>, which the mapper does not call: it is here to say what the
  pieces of \<^verbatim>\<open>split\<close> are, since joining them with the separator gives the string back.
\<close>

fun join :: "string \<Rightarrow> string list \<Rightarrow> string" where
  "join sep [] = []"
| "join sep [piece] = piece"
| "join sep (piece # pieces) = piece @ sep @ join sep pieces"

text \<open>
  \<^verbatim>\<open>details.split(/\n(.*)/s, 2)\<close>: with the flag \<^verbatim>\<open>s\<close> the group \<^verbatim>\<open>(.*)\<close> takes everything
  after the first line feed, so the first element is the text before the first line feed
  and the second element is the text after it. A string without a line feed gives a
  one-element array, and the destructuring then leaves the second variable
  \<^verbatim>\<open>undefined\<close>.
\<close>

definition lineFeed :: char where
  "lineFeed = CHR 0x0A"

definition splitFirstLine :: "string \<Rightarrow> string \<times> string optional" where
  "splitFirstLine details =
     (takeWhile (\<lambda>c. c \<noteq> lineFeed) details,
      case dropWhile (\<lambda>c. c \<noteq> lineFeed) details of
        [] \<Rightarrow> Undefined
      | c # rest \<Rightarrow> Defined rest)"

subsection \<open>Impact scoring\<close>

text \<open>
  Modelled from the spec: the type \<^verbatim>\<open>ChecklistVuln\<close> is declared in
  \<^verbatim>\<open>checklistConstructor\<close>, which is not among the sources. The spec describes a flat
  record of named string fields; the fields read by \<^verbatim>\<open>transformImpact\<close> are kept. The
  override may be missing or empty.
\<close>

record ChecklistVuln =
  status :: string
  severity :: string
  severityoverride :: "string optional"

text \<open>
  The value of a property access on the enum object. A numeric TypeScript enum
  \<^verbatim>\<open>enum ImpactMapping {high = 0.7, medium = 0.5, low = 0.3}\<close> is an object with the three
  members and their reverse mapping (\<^verbatim>\<open>ImpactMapping["0.7"]\<close> is \<^verbatim>\<open>"high"\<close>), and like every
  object it inherits \<^verbatim>\<open>constructor\<close> and \<^verbatim>\<open>__proto__\<close>; the other inherited names contain a
  capital letter and are never the result of \<^verbatim>\<open>toLowerCase\<close>. Any other key gives
  \<^verbatim>\<open>undefined\<close>.
\<close>

datatype impact = Number real | MemberName string | Inherited string | NoImpact

definition ImpactMapping :: "string \<Rightarrow> impact" where
  "ImpactMapping key =
     (if key = ''high'' then Number 0.7
      else if key = ''medium'' then Number 0.5
      else if key = ''low'' then Number 0.3
      else if key = ''0.7'' then MemberName ''high''
      else if key = ''0.5'' then MemberName ''medium''
      else if key = ''0.3'' then MemberName ''low''
      else if key = ''constructor'' \<or> key = ''__proto__'' then Inherited key
      else NoImpact)"

definition findSeverity :: "ChecklistVuln \<Rightarrow> string" where
  "findSeverity vuln =
     (case severityoverride vuln of
        Defined override \<Rightarrow> if override \<noteq> [] then override else severity vuln
      | _ \<Rightarrow> severity vuln)"

definition transformImpact :: "ChecklistVuln \<Rightarrow> impact" where
  "transformImpact vuln =
     (if status vuln = ''Not Applicable'' then Number 0.0
      else ImpactMapping (toLowerCase (findSeverity vuln)))"

subsection \<open>Status classification\<close>

datatype ControlResultStatus = Passed | Failed | Error | Skipped

definition getStatus :: "string \<Rightarrow> ControlResultStatus" where
  "getStatus input =
     (let status = toLowerCase input in
      if status = ''notafinding'' \<or> status = ''passed'' then Passed
      else if status = ''open'' \<or> status = ''failed'' then Failed
      else if status = ''error'' then Error
      else Skipped)"

subsection \<open>Splitting the finding details\<close>

text \<open>
  The fields of \<^verbatim>\<open>ExecJSON.ControlResult\<close> that the mapper sets and that
  \<^verbatim>\<open>parseFindingDetails\<close> reads or writes.
\<close>

record ControlResult =
  code_desc :: "string optional"
  status :: "ControlResultStatus optional"
  message :: "string optional"
  start_time :: string

text \<open>
  Reading a property of \<^verbatim>\<open>undefined\<close> throws a TypeError; it ends the whole call.
\<close>

datatype error = TypeError

definition statusSet :: "string list" where
  "statusSet = [''passed'', ''failed'', ''skipped'', ''error'']"

definition separator :: string where
  "separator = ''--------------------------------'' @ [lineFeed]"

definition expectedMarker :: string where
  "expectedMarker = lineFeed # ''expected''"

text \<open>
  The body of the inner loop, for one piece \<^verbatim>\<open>details\<close> of the finding's \<^verbatim>\<open>code_desc\<close>: the
  result it pushes, or the TypeError of \<^verbatim>\<open>descAndMessage.indexOf\<close> when the piece is a
  status word without a line feed.
\<close>

definition parseDetails :: "ControlResult \<Rightarrow> string \<Rightarrow> error + ControlResult" where
  "parseDetails finding details =
     (let (findingStatus, descAndMessage) = splitFirstLine details in
      if findingStatus \<in> set statusSet then
        (case descAndMessage of
           Defined dm \<Rightarrow>
             (let indexOfExpected = indexOf dm expectedMarker in
              if indexOfExpected > 0 then
                (let msg = sliceFrom dm indexOfExpected in
                 Inr \<lparr>code_desc = Defined (slice dm 0 (indexOfExpected - 1)),
                      status = Defined (getStatus findingStatus),
                      message = (if msg \<noteq> [] then Defined msg else Null),
                      start_time = []\<rparr>)
              else
                Inr \<lparr>code_desc = Defined dm,
                     status = Defined (getStatus findingStatus),
                     message = Null,
                     start_time = []\<rparr>)
         | _ \<Rightarrow> Inl TypeError)
      else
        Inr \<lparr>code_desc = Defined details,
             status = ControlResult.status finding,
             message = Null,
             start_time = []\<rparr>)"

text \<open>The inner loop: the pieces in order, each result pushed onto \<^verbatim>\<open>results\<close>.\<close>

fun parseAllDetails ::
  "ControlResult \<Rightarrow> ControlResult list \<Rightarrow> string list \<Rightarrow> error + ControlResult list" where
  "parseAllDetails finding results [] = Inr results"
| "parseAllDetails finding results (details # rest) =
     (case parseDetails finding details of
        Inl e \<Rightarrow> Inl e
      | Inr r \<Rightarrow> parseAllDetails finding (results @ [r]) rest)"

text \<open>The outer loop over the findings.\<close>

fun parseFindings :: "ControlResult list \<Rightarrow> ControlResult list \<Rightarrow> error + ControlResult list" where
  "parseFindings results [] = Inr results"
| "parseFindings results (finding # findings) =
     (case code_desc finding of
        Defined cd \<Rightarrow>
          if cd \<noteq> [] then
            (case parseAllDetails finding results (split cd separator) of
               Inl e \<Rightarrow> Inl e
             | Inr results' \<Rightarrow> parseFindings results' findings)
          else parseFindings (results @ [finding]) findings
      | _ \<Rightarrow> parseFindings (results @ [finding]) findings)"

definition parseFindingDetails :: "ControlResult list \<Rightarrow> error + ControlResult list" where
  "parseFindingDetails input = parseFindings [] input"

subsection \<open>Profiles, the execution record and the object store\<close>

text \<open>An entry of \<^verbatim>\<open>depends\<close>: the object \<^verbatim>\<open>{name: profile.name}\<close>.\<close>

record Dependency =
  name :: string

text \<open>
  A profile object, with the keys of the mapping of \<^verbatim>\<open>ChecklistMapper\<close>, of the literal
  \<^verbatim>\<open>parent_profile\<close> and the key \<^verbatim>\<open>parent_profile\<close> assigned in \<^verbatim>\<open>toHdf\<close>. The type \<open>'c\<close> is
  that of a control, which \<^verbatim>\<open>toHdf\<close> moves but never inspects; \<open>'j\<close> is that of the entries of
  \<^verbatim>\<open>supports\<close>, \<^verbatim>\<open>attributes\<close> and \<^verbatim>\<open>groups\<close>, which are the empty array in both.
\<close>

record ('c, 'j) Profile =
  name :: string
  version :: "string optional"
  title :: "string optional"
  summary :: "string optional"
  license :: "string optional"
  supports :: "'j list"
  attributes :: "'j list"
  groups :: "'j list"
  depends :: "Dependency list optional"
  status :: "string optional"
  controls :: "'c list"
  parent_profile :: "string optional"
  sha256 :: string

text \<open>
  The execution record. Its array \<^verbatim>\<open>profiles\<close> holds \<open>'p\<close>: references to profile objects
  while \<^verbatim>\<open>toHdf\<close> runs, the profiles themselves when the record is read as a whole. The
  keys \<^verbatim>\<open>platform\<close>, \<^verbatim>\<open>version\<close>, \<^verbatim>\<open>statistics\<close> and \<^verbatim>\<open>passthrough\<close>, none of which \<^verbatim>\<open>toHdf\<close> reads
  or writes, are the field \<open>other\<close>.
\<close>

record ('p, 'x) Execution =
  profiles :: "'p list"
  other :: 'x

text \<open>
  \<^verbatim>\<open>toHdf\<close> assigns to properties of profile objects it got from the mapper, so profile
  objects live in a store and are addressed by reference; \<open>fresh\<close> is the next unused
  address.
\<close>

type_synonym ref = nat

record ('c, 'j) store =
  objects :: "ref \<Rightarrow> ('c, 'j) Profile"
  fresh :: ref

definition new :: "('c, 'j) Profile \<Rightarrow> ('c, 'j) store \<Rightarrow> ref \<times> ('c, 'j) store" where
  "new profile s =
     (fresh s, s\<lparr>objects := (objects s)(fresh s := profile), fresh := Suc (fresh s)\<rparr>)"

fun newAll :: "('c, 'j) Profile list \<Rightarrow> ('c, 'j) store \<Rightarrow> ref list \<times> ('c, 'j) store" where
  "newAll [] s = ([], s)"
| "newAll (profile # rest) s =
     (let (r, s1) = new profile s; (rs, s2) = newAll rest s1 in (r # rs, s2))"

text \<open>An assignment to properties of the object at \<open>r\<close>.\<close>

definition assign ::
  "ref \<Rightarrow> (('c, 'j) Profile \<Rightarrow> ('c, 'j) Profile) \<Rightarrow> ('c, 'j) store \<Rightarrow> ('c, 'j) store" where
  "assign r f s = s\<lparr>objects := (objects s)(r := f (objects s r))\<rparr>"

text \<open>The record with every profile reference replaced by the object it points to.\<close>

definition snapshot ::
  "('c, 'j) store \<Rightarrow> (ref, 'x) Execution \<Rightarrow> (('c, 'j) Profile, 'x) Execution" where
  "snapshot s execution =
     \<lparr>profiles = map (objects s) (profiles execution), other = other execution\<rparr>"

definition outcome ::
  "(error + (ref, 'x) Execution) \<times> ('c, 'j) store \<Rightarrow> error + (('c, 'j) Profile, 'x) Execution" where
  "outcome call = (case fst call of Inl e \<Rightarrow> Inl e | Inr execution \<Rightarrow> Inr (snapshot (snd call) execution))"

subsection \<open>The checklist domain object and what \<^verbatim>\<open>toHdf\<close> imports\<close>

text \<open>
  Modelled from the spec: the types \<^verbatim>\<open>ChecklistObject\<close> and its STIG blocks are declared in
  \<^verbatim>\<open>checklistConstructor\<close>, which is not among the sources. The spec gives the object
  an asset and a list of STIGs, each with header metadata and a list of vulns.
\<close>

record 'h ChecklistStig =
  header :: 'h
  vulns :: "ChecklistVuln list"

record ('a, 'h) ChecklistObject =
  asset :: 'a
  stigs :: "'h ChecklistStig list"

text \<open>The instance of \<^verbatim>\<open>ChecklistResults\<close>, as its constructor leaves it.\<close>

record ('r, 'a, 'h) ChecklistResults =
  checklistXml :: string
  raw :: 'r
  checklistObject :: "('a, 'h) ChecklistObject"

text \<open>
  What \<^verbatim>\<open>toHdf\<close> uses and the sources do not contain, taken as parameters: the version
  string of \<^verbatim>\<open>package.json\<close>, \<^verbatim>\<open>generateHash\<close> of \<^verbatim>\<open>base-converter\<close>, \<^verbatim>\<open>JSON.stringify\<close> on a
  profile, and the record that the mapping of \<^verbatim>\<open>ChecklistMapper\<close> yields for a checklist
  object (or the error a transformer throws on the way).
\<close>

record ('a, 'h, 'c, 'j, 'x) imported =
  HeimdallToolsVersion :: string
  generateHash :: "string \<Rightarrow> string"
  stringify :: "('c, 'j) Profile \<Rightarrow> string"
  convert :: "('a, 'h) ChecklistObject \<Rightarrow> error + (('c, 'j) Profile, 'x) Execution"

text \<open>
  Modelled from the spec: \<^verbatim>\<open>ChecklistMapper.toHdf\<close> is inherited from \<^verbatim>\<open>BaseConverter\<close>, which
  is not among the sources. By the spec it walks the mapping over the input without any
  side effect, and the record it returns is newly constructed by each call: the profiles
  of the converted record become new objects of the store, in order.
\<close>

definition ChecklistMapper_toHdf ::
  "('a, 'h, 'c, 'j, 'x) imported \<Rightarrow> ('a, 'h) ChecklistObject \<Rightarrow> ('c, 'j) store \<Rightarrow>
     (error + (ref, 'x) Execution) \<times> ('c, 'j) store" where
  "ChecklistMapper_toHdf imp data s =
     (case convert imp data of
        Inl e \<Rightarrow> (Inl e, s)
      | Inr v \<Rightarrow>
          (let (rs, s1) = newAll (profiles v) s
           in (Inr \<lparr>profiles = rs, other = other v\<rparr>, s1)))"

subsection \<open>\<^verbatim>\<open>ChecklistResults.toHdf\<close>\<close>

definition parentProfileName :: string where
  "parentProfileName = ''Parent Profile''"

text \<open>\<^verbatim>\<open>depends?.push(d)\<close>: nothing happens when \<^verbatim>\<open>depends\<close> is missing or null.\<close>

fun pushDependency :: "Dependency list optional \<Rightarrow> Dependency \<Rightarrow> Dependency list optional" where
  "pushDependency (Defined ds) d = Defined (ds @ [d])"
| "pushDependency Undefined d = Undefined"
| "pushDependency Null d = Null"

text \<open>
  The body of the loop over \<^verbatim>\<open>original.profiles\<close>, one statement after the other; each
  statement reads the objects as the statement before left them.
\<close>

definition aggregateProfile ::
  "('a, 'h, 'c, 'j, 'x) imported \<Rightarrow> ref \<Rightarrow> ref \<Rightarrow> ('c, 'j) store \<Rightarrow> ('c, 'j) store" where
  "aggregateProfile imp parentProfile profile s =
     (let s1 = assign parentProfile
                 (\<lambda>p. p\<lparr>depends := pushDependency (depends p)
                                     \<lparr>Dependency.name = name (objects s profile)\<rparr>\<rparr>) s;
          s2 = assign parentProfile
                 (\<lambda>p. p\<lparr>controls := controls p @ controls (objects s1 profile)\<rparr>) s1;
          s3 = assign profile (\<lambda>p. p\<lparr>parent_profile := Defined parentProfileName\<rparr>) s2;
          s4 = assign profile
                 (\<lambda>p. p\<lparr>sha256 := generateHash imp (stringify imp (objects s3 profile))\<rparr>) s3
      in s4)"

fun aggregateProfiles ::
  "('a, 'h, 'c, 'j, 'x) imported \<Rightarrow> ref \<Rightarrow> ref list \<Rightarrow> ('c, 'j) store \<Rightarrow> ('c, 'j) store" where
  "aggregateProfiles imp parentProfile [] s = s"
| "aggregateProfiles imp parentProfile (profile # rest) s =
     aggregateProfiles imp parentProfile rest (aggregateProfile imp parentProfile profile s)"

definition toHdf ::
  "('a, 'h, 'c, 'j, 'x) imported \<Rightarrow> ('r, 'a, 'h) ChecklistResults \<Rightarrow> ('c, 'j) store \<Rightarrow>
     (error + (ref, 'x) Execution) \<times> ('c, 'j) store" where
  "toHdf imp this s =
     (let numberOfStigs = length (stigs (checklistObject this)) in
      if numberOfStigs = 1 then ChecklistMapper_toHdf imp (checklistObject this) s
      else
        (case ChecklistMapper_toHdf imp (checklistObject this) s of
           (Inl e, s0) \<Rightarrow> (Inl e, s0)
         | (Inr original, s0) \<Rightarrow>
             (let (parentProfile, s1) =
                    new \<lparr>name = parentProfileName,
                         version = Defined (HeimdallToolsVersion imp),
                         title = Undefined, summary = Undefined, license = Undefined,
                         supports = [], attributes = [], groups = [],
                         depends = Defined [],
                         status = Undefined,
                         controls = [],
                         parent_profile = Undefined,
                         sha256 = []\<rparr> s0;
                  s2 = aggregateProfiles imp parentProfile (profiles original) s1;
                  s3 = assign parentProfile
                         (\<lambda>p. p\<lparr>sha256 := generateHash imp
                                              (stringify imp (objects s2 parentProfile))\<rparr>) s2
              in (Inr (original\<lparr>profiles := profiles original @ [parentProfile]\<rparr>), s3))))"

subsection \<open>An instance\<close>

text \<open>
  A checklist with two STIGs of three and five vulns, one with a single STIG, and for the
  parameters of \<^verbatim>\<open>toHdf\<close> a
  conversion that makes one profile per STIG, named by its header, with one control per
  vuln (here just its impact), a serialisation that writes the name of a profile and its
  parent, and a hash that marks its argument. They serve as the concrete input of the
  examples below.
\<close>

definition exampleVuln :: "string \<Rightarrow> ChecklistVuln" where
  "exampleVuln s = \<lparr>ChecklistVuln.status = ''Open'', severity = s, severityoverride = Undefined\<rparr>"

definition exampleResults :: "(unit, unit, string) ChecklistResults" where
  "exampleResults =
     \<lparr>checklistXml = [], raw = (),
      checklistObject =
        \<lparr>asset = (),
         stigs =
           [\<lparr>header = ''STIG A'', vulns = map exampleVuln [''high'', ''medium'', ''low'']\<rparr>,
            \<lparr>header = ''STIG B'',
             vulns = map exampleVuln [''low'', ''low'', ''high'', ''medium'', ''high'']\<rparr>]\<rparr>\<rparr>"

definition exampleSingle :: "(unit, unit, string) ChecklistResults" where
  "exampleSingle =
     \<lparr>checklistXml = [], raw = (),
      checklistObject =
        \<lparr>asset = (),
         stigs = [\<lparr>header = ''STIG A'', vulns = map exampleVuln [''high'', ''medium'']\<rparr>]\<rparr>\<rparr>"

definition exampleProfile :: "string ChecklistStig \<Rightarrow> (impact, unit) Profile" where
  "exampleProfile stig =
     \<lparr>name = header stig, version = Undefined, title = Defined (header stig),
      summary = Undefined, license = Undefined,
      supports = [], attributes = [], groups = [],
      depends = Undefined,
      status = Defined ''loaded'',
      controls = map transformImpact (vulns stig),
      parent_profile = Undefined,
      sha256 = []\<rparr>"

definition exampleImported :: "(unit, string, impact, unit, unit) imported" where
  "exampleImported =
     \<lparr>HeimdallToolsVersion = ''2.10.0'',
      generateHash = (\<lambda>text. ''#'' @ text),
      stringify =
        (\<lambda>p. name p @ (case parent_profile p of Defined parent \<Rightarrow> '' < '' @ parent | _ \<Rightarrow> [])),
      convert = (\<lambda>data. Inr \<lparr>profiles = map exampleProfile (stigs data), other = ()\<rparr>)\<rparr>"

definition exampleStore :: "(impact, unit) store" where
  "exampleStore = \<lparr>objects = (\<lambda>r. exampleProfile \<lparr>header = [], vulns = []\<rparr>), fresh = 0\<rparr>"

section \<open>Properties\<close>

subsection \<open>String functions\<close>

lemma indexOfFrom_found:
  "0 \<le> i \<Longrightarrow> 0 \<le> indexOfFrom i s needle \<Longrightarrow>
     i \<le> indexOfFrom i s needle \<and> indexOfFrom i s needle - i \<le> int (length s) \<and>
     startsWith (drop (nat (indexOfFrom i s needle - i)) s) needle"
proof (induction s arbitrary: i)
  case Nil
  then show ?case by (auto split: if_splits)
next
  case (Cons c cs)
  show ?case
  proof (cases "startsWith (c # cs) needle")
    case True
    then show ?thesis by simp
  next
    case False
    define j where "j = indexOfFrom (i + 1) cs needle"
    from False have eq: "indexOfFrom i (c # cs) needle = j" by (simp add: j_def)
    with Cons.prems have pos: "0 \<le> indexOfFrom (i + 1) cs needle" by (simp add: j_def)
    from Cons.prems have "0 \<le> i + 1" by simp
    from Cons.IH [OF this pos]
    have ih: "i + 1 \<le> j" "j - (i + 1) \<le> int (length cs)"
      "startsWith (drop (nat (j - (i + 1))) cs) needle"
      by (simp_all add: j_def)
    from ih(1) have "nat (j - i) = Suc (nat (j - (i + 1)))" by simp
    with ih show ?thesis unfolding eq by simp
  qed
qed

lemma indexOf_found:
  assumes "0 \<le> indexOf s needle"
  shows "nat (indexOf s needle) \<le> length s"
    and "startsWith (drop (nat (indexOf s needle)) s) needle"
  using indexOfFrom_found [of 0 s needle] assms by (auto simp: indexOf_def)

lemma indexOf_startsWith: "startsWith s needle \<Longrightarrow> indexOf s needle = 0"
  by (cases s; cases needle) (auto simp: indexOf_def)

lemma indexOfFrom_first:
  "0 \<le> i \<Longrightarrow> 0 \<le> indexOfFrom i s needle \<Longrightarrow> j < nat (indexOfFrom i s needle - i) \<Longrightarrow>
     \<not> startsWith (drop j s) needle"
proof (induction s arbitrary: i j)
  case Nil
  then show ?case by (auto split: if_splits)
next
  case (Cons c cs)
  show ?case
  proof (cases "startsWith (c # cs) needle")
    case True
    with Cons.prems show ?thesis by simp
  next
    case False
    show ?thesis
    proof (cases j)
      case 0
      with False show ?thesis by simp
    next
      case (Suc j')
      from False Cons.prems have "0 \<le> i + 1" "0 \<le> indexOfFrom (i + 1) cs needle"
        "j' < nat (indexOfFrom (i + 1) cs needle - (i + 1))"
        by (simp_all add: Suc)
      from Cons.IH [OF this] show ?thesis by (simp add: Suc)
    qed
  qed
qed

lemma indexOf_first:
  "0 \<le> indexOf s needle \<Longrightarrow> j < nat (indexOf s needle) \<Longrightarrow> \<not> startsWith (drop j s) needle"
  using indexOfFrom_first [of 0 s needle j] by (simp add: indexOf_def)

lemma indexOfFrom_none:
  "0 \<le> i \<Longrightarrow> indexOfFrom i s needle < 0 \<Longrightarrow> \<not> startsWith (drop j s) needle"
proof (induction s arbitrary: i j)
  case Nil
  then show ?case by (cases needle) (auto split: if_splits)
next
  case (Cons c cs)
  then have no: "\<not> startsWith (c # cs) needle" and rest: "indexOfFrom (i + 1) cs needle < 0"
    by (auto split: if_splits)
  show ?case
  proof (cases j)
    case 0
    with no show ?thesis by simp
  next
    case (Suc j')
    from Cons.prems have "0 \<le> i + 1" by simp
    from Cons.IH [OF this rest] show ?thesis by (simp add: Suc)
  qed
qed

lemma indexOf_none: "indexOf s needle < 0 \<Longrightarrow> \<not> startsWith (drop j s) needle"
  using indexOfFrom_none [of 0 s needle j] by (simp add: indexOf_def)

lemma slice_prefix: "0 \<le> k \<Longrightarrow> slice s 0 k = take (nat k) s"
  by (auto simp: slice_def sliceIndex_def min_def)

lemma sliceFrom_drop: "0 \<le> k \<Longrightarrow> sliceFrom s k = drop (nat k) s"
  by (auto simp: sliceFrom_def sliceIndex_def min_def)

lemma startsWith_append: "startsWith s p \<Longrightarrow> s = p @ drop (length p) s"
  by (induction s p rule: startsWith.induct) auto

lemma splitAcc_Cons: "\<exists>piece' pieces. splitAcc sep piece s = piece' # pieces"
  by (induction sep piece s rule: splitAcc.induct) auto

lemma join_splitAcc: "join sep (splitAcc sep piece s) = rev piece @ s"
proof (induction sep piece s rule: splitAcc.induct)
  case (1 sep piece)
  show ?case by simp
next
  case (2 sep piece c cs)
  show ?case
  proof (cases "sep \<noteq> [] \<and> startsWith (c # cs) sep")
    case True
    then have eq: "c # cs = sep @ drop (length sep) (c # cs)"
      using startsWith_append by blast
    from True have d: "drop (length sep) (c # cs) = drop (length sep - 1) cs"
      by (cases sep) simp_all
    obtain p ps where ne: "splitAcc sep [] (drop (length sep - 1) cs) = p # ps"
      using splitAcc_Cons by blast
    have "join sep (splitAcc sep piece (c # cs)) =
        rev piece @ sep @ join sep (splitAcc sep [] (drop (length sep - 1) cs))"
      using True ne by simp
    also have "\<dots> = rev piece @ sep @ drop (length sep - 1) cs"
      using 2(1) True by simp
    also have "\<dots> = rev piece @ c # cs"
      using eq d by simp
    finally show ?thesis .
  next
    case False
    with 2(2) show ?thesis by auto
  qed
qed

lemma join_split: "sep \<noteq> [] \<Longrightarrow> join sep (split s sep) = s"
  by (simp add: split_def join_splitAcc)

lemma splitFirstLine_no_lineFeed:
  "lineFeed \<notin> set details \<Longrightarrow> splitFirstLine details = (details, Undefined)"
  by (induction details) (auto simp: splitFirstLine_def)

lemma splitFirstLine_lineFeed:
  "lineFeed \<in> set details \<Longrightarrow>
     \<exists>rest. splitFirstLine details = (takeWhile (\<lambda>c. c \<noteq> lineFeed) details, Defined rest) \<and>
       details = takeWhile (\<lambda>c. c \<noteq> lineFeed) details @ lineFeed # rest"
  by (induction details) (auto simp: splitFirstLine_def)

lemma statusSet_no_lineFeed: "w \<in> set statusSet \<Longrightarrow> lineFeed \<notin> set w"
  by (auto simp: statusSet_def lineFeed_def)

subsection \<open>The loops of \<^verbatim>\<open>parseFindingDetails\<close>\<close>

lemma parseDetails_throws:
  "parseDetails finding details = Inl e \<longleftrightarrow> details \<in> set statusSet"
proof (cases "lineFeed \<in> set details")
  case True
  then obtain rest where
    "splitFirstLine details = (takeWhile (\<lambda>c. c \<noteq> lineFeed) details, Defined rest)"
    using splitFirstLine_lineFeed by blast
  then have "parseDetails finding details \<noteq> Inl e"
    by (simp add: parseDetails_def Let_def)
  with True show ?thesis
    using statusSet_no_lineFeed by blast
next
  case False
  then have "splitFirstLine details = (details, Undefined)"
    by (rule splitFirstLine_no_lineFeed)
  then show ?thesis
    by (cases e) (simp add: parseDetails_def)
qed

lemma parseAllDetails_acc:
  "parseAllDetails finding results ds =
     (case parseAllDetails finding [] ds of Inl e \<Rightarrow> Inl e | Inr rs \<Rightarrow> Inr (results @ rs))"
proof (induction ds arbitrary: results)
  case Nil
  show ?case by simp
next
  case (Cons d ds)
  show ?case
  proof (cases "parseDetails finding d")
    case (Inl e)
    then show ?thesis by simp
  next
    case (Inr r)
    then show ?thesis
      using Cons.IH [of "results @ [r]"] Cons.IH [of "[r]"]
      by (simp split: sum.splits)
  qed
qed

lemma parseAllDetails_returns:
  "\<forall>d \<in> set ds. d \<notin> set statusSet \<Longrightarrow>
     \<exists>rs. parseAllDetails finding results ds = Inr (results @ rs) \<and> length rs = length ds \<and>
       (\<forall>i < length ds. parseDetails finding (ds ! i) = Inr (rs ! i))"
proof (induction ds arbitrary: results)
  case Nil
  show ?case by simp
next
  case (Cons d ds)
  from Cons.prems have "d \<notin> set statusSet" by simp
  then have "parseDetails finding d \<noteq> Inl TypeError"
    by (simp add: parseDetails_throws)
  then obtain r where r: "parseDetails finding d = Inr r"
  proof (cases "parseDetails finding d")
    case (Inl e)
    moreover have "e = TypeError" by (cases e) simp
    ultimately show ?thesis using \<open>parseDetails finding d \<noteq> Inl TypeError\<close> by simp
  qed simp
  from Cons.prems have "\<forall>d \<in> set ds. d \<notin> set statusSet" by simp
  from Cons.IH [OF this, of "results @ [r]"] obtain rs where
    rs: "parseAllDetails finding (results @ [r]) ds = Inr ((results @ [r]) @ rs)"
      "length rs = length ds" "\<forall>i < length ds. parseDetails finding (ds ! i) = Inr (rs ! i)"
    by blast
  have "\<forall>i < length (d # ds). parseDetails finding ((d # ds) ! i) = Inr ((r # rs) ! i)"
    using r rs(3) by (auto simp: nth_Cons split: nat.splits)
  with r rs(1,2) show ?case
    by (intro exI [of _ "r # rs"]) simp
qed

lemma parseFindings_acc:
  "parseFindings results fs =
     (case parseFindings [] fs of Inl e \<Rightarrow> Inl e | Inr rs \<Rightarrow> Inr (results @ rs))"
proof (induction fs arbitrary: results)
  case Nil
  show ?case by simp
next
  case (Cons f fs)
  have push: "parseFindings (results @ [f]) fs =
      (case parseFindings [f] fs of Inl e \<Rightarrow> Inl e | Inr rs \<Rightarrow> Inr (results @ rs))"
    using Cons.IH [of "results @ [f]"] Cons.IH [of "[f]"] by (simp split: sum.splits)
  show ?case
  proof (cases "code_desc f")
    case (Defined cd)
    show ?thesis
    proof (cases "cd = []")
      case True
      with Defined push show ?thesis by simp
    next
      case False
      show ?thesis
      proof (cases "parseAllDetails f [] (split cd separator)")
        case (Inl e)
        with Defined False show ?thesis
          using parseAllDetails_acc [of f results "split cd separator"] by simp
      next
        case (Inr rs)
        with Defined False show ?thesis
          using parseAllDetails_acc [of f results "split cd separator"]
            Cons.IH [of "results @ rs"] Cons.IH [of rs]
          by (simp split: sum.splits)
      qed
    qed
  qed (use push in simp_all)
qed

lemma parseFindings_append:
  "parseFindings results (fs @ gs) =
     (case parseFindings results fs of Inl e \<Rightarrow> Inl e | Inr rs \<Rightarrow> parseFindings rs gs)"
proof (induction fs arbitrary: results)
  case Nil
  show ?case by simp
next
  case (Cons f fs)
  show ?case
    by (cases "code_desc f") (simp_all add: Cons.IH split: sum.splits)
qed

lemma parseFindingDetails_append:
  "parseFindingDetails (fs @ gs) =
     (case parseFindingDetails fs of
        Inl e \<Rightarrow> Inl e
      | Inr rs \<Rightarrow> (case parseFindingDetails gs of Inl e \<Rightarrow> Inl e | Inr rs' \<Rightarrow> Inr (rs @ rs')))"
proof (cases "parseFindings [] fs")
  case (Inl e)
  then show ?thesis by (simp add: parseFindingDetails_def parseFindings_append)
next
  case (Inr rs)
  then show ?thesis
    using parseFindings_acc [of rs gs]
    by (simp add: parseFindingDetails_def parseFindings_append)
qed

lemma parseFindingDetails_falsy:
  "\<not> truthy (code_desc finding) \<Longrightarrow> parseFindingDetails [finding] = Inr [finding]"
  by (cases "code_desc finding") (simp_all add: parseFindingDetails_def)

lemma parseDetails_no_status_word:
  "fst (splitFirstLine details) \<notin> set statusSet \<Longrightarrow>
     parseDetails finding details =
       Inr \<lparr>code_desc = Defined details, status = ControlResult.status finding,
            message = Null, start_time = []\<rparr>"
  by (cases "splitFirstLine details") (simp add: parseDetails_def)

lemma parseFindingDetails_single:
  assumes "code_desc finding = Defined cd" and "cd \<noteq> []"
  shows "parseFindingDetails [finding] = parseAllDetails finding [] (split cd separator)"
  using assms by (simp add: parseFindingDetails_def split: sum.splits)

lemma parseFindingDetails_emits:
  assumes "code_desc finding = Defined cd" and "cd \<noteq> []"
    and "\<forall>d \<in> set (split cd separator). d \<notin> set statusSet"
  shows "\<exists>rs. parseFindingDetails [finding] = Inr rs \<and>
    length rs = length (split cd separator) \<and>
    (\<forall>i < length (split cd separator). parseDetails finding (split cd separator ! i) = Inr (rs ! i))"
  using parseAllDetails_returns [OF assms(3), of finding "[]"] assms(1,2)
  by (simp add: parseFindingDetails_single)

subsection \<open>The store and the aggregation loop\<close>

lemma new_simps:
  "fst (new p s) = fresh s"
  "fresh (snd (new p s)) = Suc (fresh s)"
  "objects (snd (new p s)) = (objects s)(fresh s := p)"
  by (simp_all add: new_def)

lemma newAll_Cons:
  "newAll (p # ps) s =
     (fresh s # fst (newAll ps (snd (new p s))), snd (newAll ps (snd (new p s))))"
  by (simp add: new_def split: prod.splits)

lemma newAll_refs: "fst (newAll ps s) = [fresh s ..< fresh s + length ps]"
proof (induction ps arbitrary: s)
  case Nil
  show ?case by simp
next
  case (Cons p ps)
  show ?case
    unfolding newAll_Cons by (simp add: Cons.IH new_simps upt_conv_Cons del: upt_Suc)
qed

lemma newAll_fresh: "fresh (snd (newAll ps s)) = fresh s + length ps"
proof (induction ps arbitrary: s)
  case Nil
  show ?case by simp
next
  case (Cons p ps)
  show ?case
    unfolding newAll_Cons by (simp add: Cons.IH new_simps)
qed

lemma newAll_objects:
  "objects (snd (newAll ps s)) r =
     (if fresh s \<le> r \<and> r < fresh s + length ps then ps ! (r - fresh s) else objects s r)"
proof (induction ps arbitrary: s)
  case Nil
  show ?case by auto
next
  case (Cons p ps)
  show ?case
  proof (cases "r = fresh s")
    case True
    with Cons.IH [of "snd (new p s)"] show ?thesis
      unfolding newAll_Cons by (simp add: new_simps)
  next
    case False
    show ?thesis
    proof (cases "fresh s < r")
      case True
      then have "r - fresh s = Suc (r - Suc (fresh s))" by simp
      with True show ?thesis
        unfolding newAll_Cons by (simp add: Cons.IH new_simps)
    next
      case below: False
      with False show ?thesis
        unfolding newAll_Cons by (simp add: Cons.IH new_simps)
    qed
  qed
qed

lemma newAll_read: "map (objects (snd (newAll ps s))) (fst (newAll ps s)) = ps"
  by (rule nth_equalityI) (simp_all add: newAll_refs newAll_objects)

lemma assign_simps:
  "fresh (assign r f s) = fresh s"
  "objects (assign r f s) = (objects s)(r := f (objects s r))"
  by (simp_all add: assign_def)

lemma aggregateProfile_effect:
  assumes "parent \<noteq> r"
  shows "fresh (aggregateProfile imp parent r s) = fresh s"
    and "objects (aggregateProfile imp parent r s) =
      (objects s)
        (parent := (objects s parent)
           \<lparr>depends := pushDependency (depends (objects s parent))
                        \<lparr>Dependency.name = name (objects s r)\<rparr>,
            controls := controls (objects s parent) @ controls (objects s r)\<rparr>,
         r := (objects s r)
           \<lparr>parent_profile := Defined parentProfileName,
            sha256 := generateHash imp
                        (stringify imp ((objects s r)\<lparr>parent_profile := Defined parentProfileName\<rparr>))\<rparr>)"
  using assms by (simp_all add: aggregateProfile_def assign_simps Let_def fun_upd_twist)


lemma foldl_pushDependency:
  "foldl pushDependency (Defined ds) xs = Defined (ds @ xs)"
  by (induction xs arbitrary: ds) simp_all

lemma aggregateProfiles_fresh:
  "distinct rs \<Longrightarrow> parent \<notin> set rs \<Longrightarrow> fresh (aggregateProfiles imp parent rs s) = fresh s"
proof (induction rs arbitrary: s)
  case Nil
  show ?case by simp
next
  case (Cons r rs)
  then show ?case
    using aggregateProfile_effect(1) [of parent r imp s] by simp
qed

lemma aggregateProfiles_objects:
  "distinct rs \<Longrightarrow> parent \<notin> set rs \<Longrightarrow>
   objects (aggregateProfiles imp parent rs s) =
      (\<lambda>x. if x \<in> set rs then
             (objects s x)
               \<lparr>parent_profile := Defined parentProfileName,
                sha256 := generateHash imp
                   (stringify imp ((objects s x)\<lparr>parent_profile := Defined parentProfileName\<rparr>))\<rparr>
           else if x = parent then
             (objects s parent)
               \<lparr>depends := foldl pushDependency (depends (objects s parent))
                             (map (\<lambda>r. \<lparr>Dependency.name = name (objects s r)\<rparr>) rs),
                controls := controls (objects s parent) @ concat (map (\<lambda>r. controls (objects s r)) rs)\<rparr>
           else objects s x)"
proof (induction rs arbitrary: s)
  case Nil
  show ?case by (rule ext) simp
next
  case (Cons r rs)
  from Cons.prems have d: "distinct rs" "parent \<notin> set rs" "parent \<noteq> r" "r \<notin> set rs"
    by auto
  note step = aggregateProfile_effect(2) [OF d(3), of imp s]
  have same: "\<And>x. x \<in> set rs \<Longrightarrow> objects (aggregateProfile imp parent r s) x = objects s x"
    using d by (auto simp: step)
  have names: "map (\<lambda>x. \<lparr>Dependency.name = name (objects (aggregateProfile imp parent r s) x)\<rparr>) rs
      = map (\<lambda>x. \<lparr>Dependency.name = name (objects s x)\<rparr>) rs"
    using same by simp
  have ctls: "map (\<lambda>x. controls (objects (aggregateProfile imp parent r s) x)) rs
      = map (\<lambda>x. controls (objects s x)) rs"
    using same by simp
  show ?case
    unfolding aggregateProfiles.simps Cons.IH [OF d(1,2)] names ctls
    using d by (intro ext) (auto simp: step)
qed


lemma ChecklistMapper_toHdf_Inl:
  "convert imp data = Inl e \<Longrightarrow> ChecklistMapper_toHdf imp data s = (Inl e, s)"
  by (simp add: ChecklistMapper_toHdf_def)

lemma ChecklistMapper_toHdf_Inr:
  "convert imp data = Inr v \<Longrightarrow>
     ChecklistMapper_toHdf imp data s =
       (Inr \<lparr>profiles = fst (newAll (profiles v) s), other = other v\<rparr>, snd (newAll (profiles v) s))"
  by (simp add: ChecklistMapper_toHdf_def split: prod.splits)

lemma toHdf_single:
  "length (stigs (checklistObject this)) = 1 \<Longrightarrow>
     outcome (toHdf imp this s) =
       (case convert imp (checklistObject this) of Inl e \<Rightarrow> Inl e | Inr v \<Rightarrow> Inr v)"
  by (cases "convert imp (checklistObject this)")
    (simp_all add: toHdf_def outcome_def snapshot_def newAll_read
      ChecklistMapper_toHdf_Inl ChecklistMapper_toHdf_Inr)

lemma toHdf_throws:
  "convert imp (checklistObject this) = Inl e \<Longrightarrow> toHdf imp this s = (Inl e, s)"
  by (simp add: toHdf_def ChecklistMapper_toHdf_Inl)

lemma toHdf_aggregates:
  fixes imp :: "('a, 'h, 'c, 'j, 'x) imported"
  assumes "length (stigs (checklistObject this)) \<noteq> 1"
    and "convert imp (checklistObject this) = Inr v"
  shows "outcome (toHdf imp this s) =
    Inr \<lparr>profiles =
           map (\<lambda>p. p\<lparr>parent_profile := Defined parentProfileName,
                      sha256 := generateHash imp
                        (stringify imp (p\<lparr>parent_profile := Defined parentProfileName\<rparr>))\<rparr>)
             (profiles v) @
           [\<lparr>name = parentProfileName,
             version = Defined (HeimdallToolsVersion imp),
             title = Undefined, summary = Undefined, license = Undefined,
             supports = [], attributes = [], groups = [],
             depends = Defined (map (\<lambda>p. \<lparr>Dependency.name = name p\<rparr>) (profiles v)),
             status = Undefined,
             controls = concat (map controls (profiles v)),
             parent_profile = Undefined,
             sha256 = generateHash imp (stringify imp
               \<lparr>name = parentProfileName,
                version = Defined (HeimdallToolsVersion imp),
                title = Undefined, summary = Undefined, license = Undefined,
                supports = [], attributes = [], groups = [],
                depends = Defined (map (\<lambda>p. \<lparr>Dependency.name = name p\<rparr>) (profiles v)),
                status = Undefined,
                controls = concat (map controls (profiles v)),
                parent_profile = Undefined,
                sha256 = []\<rparr>)\<rparr>],
         other = other v\<rparr>"
proof -
  define s0 where "s0 = snd (newAll (profiles v) s)"
  define rs where "rs = fst (newAll (profiles v) s)"
  define parent where "parent = fresh s0"
  define literal :: "('c, 'j) Profile" where "literal =
     \<lparr>name = parentProfileName,
                         version = Defined (HeimdallToolsVersion imp),
                         title = Undefined, summary = Undefined, license = Undefined,
                         supports = [], attributes = [], groups = [],
                         depends = Defined [],
                         status = Undefined,
                         controls = [],
                         parent_profile = Undefined,
                         sha256 = []\<rparr>"
  define s1 where "s1 = snd (new literal s0)"
  define s2 where "s2 = aggregateProfiles imp parent rs s1"
  define s3 where "s3 = assign parent
       (\<lambda>p. p\<lparr>sha256 := generateHash imp (stringify imp (objects s2 parent))\<rparr>) s2"
  have call: "toHdf imp this s = (Inr \<lparr>profiles = rs @ [parent], other = other v\<rparr>, s3)"
    using assms
    by (simp add: toHdf_def ChecklistMapper_toHdf_Inr new_def Let_def s0_def rs_def parent_def
        literal_def s1_def s2_def s3_def)
  have rs: "rs = [fresh s ..< fresh s + length (profiles v)]"
    by (simp add: rs_def newAll_refs)
  have parent: "parent = fresh s + length (profiles v)"
    by (simp add: parent_def s0_def newAll_fresh)
  have distinct: "distinct rs" "parent \<notin> set rs"
    by (simp_all add: rs parent)
  have read0: "map (objects s0) rs = profiles v"
    by (simp add: s0_def rs_def newAll_read)
  have s1: "objects s1 = (objects s0)(parent := literal)"
    by (simp add: s1_def new_simps parent_def)
  have "map (objects s1) rs = map (objects s0) rs"
    using distinct by (intro map_cong refl) (auto simp: s1)
  with read0 have read1: "map (objects s1) rs = profiles v"
    by simp
  have names: "map (\<lambda>r. \<lparr>Dependency.name = name (objects s1 r)\<rparr>) rs
      = map (\<lambda>p. \<lparr>Dependency.name = name p\<rparr>) (profiles v)"
    using arg_cong [OF read1, of "map (\<lambda>p. \<lparr>Dependency.name = name p\<rparr>)"] by (simp add: comp_def)
  have ctls: "map (\<lambda>r. controls (objects s1 r)) rs = map controls (profiles v)"
    using arg_cong [OF read1, of "map controls"] by (simp add: comp_def)
  note s2 = aggregateProfiles_objects [OF distinct, of imp s1, folded s2_def, unfolded names ctls]
  have children: "map (objects s3) rs =
      map (\<lambda>p. p\<lparr>parent_profile := Defined parentProfileName,
                      sha256 := generateHash imp
                        (stringify imp (p\<lparr>parent_profile := Defined parentProfileName\<rparr>))\<rparr>)
             (profiles v)"
  proof -
    have "map (objects s3) rs =
      map (\<lambda>r. (objects s1 r)\<lparr>parent_profile := Defined parentProfileName,
                      sha256 := generateHash imp
                        (stringify imp ((objects s1 r)\<lparr>parent_profile := Defined parentProfileName\<rparr>))\<rparr>) rs"
      using distinct by (intro map_cong refl) (auto simp: s3_def assign_simps s2)
    also have "\<dots> = map (\<lambda>p. p\<lparr>parent_profile := Defined parentProfileName,
                      sha256 := generateHash imp
                        (stringify imp (p\<lparr>parent_profile := Defined parentProfileName\<rparr>))\<rparr>)
             (map (objects s1) rs)"
      by (simp add: comp_def)
    finally show ?thesis by (simp only: read1)
  qed
  have parent_obj: "objects s2 parent = literal
      \<lparr>depends := Defined (map (\<lambda>p. \<lparr>Dependency.name = name p\<rparr>) (profiles v)),
       controls := concat (map controls (profiles v))\<rparr>"
    using distinct by (simp add: s2 s1 literal_def foldl_pushDependency)
  have "objects s3 parent = (objects s2 parent)
      \<lparr>sha256 := generateHash imp (stringify imp (objects s2 parent))\<rparr>"
    by (simp add: s3_def assign_simps)
  with children show ?thesis
    unfolding call outcome_def snapshot_def parent_obj
    by (simp add: literal_def)
qed

lemma toHdf_outcome_store:
  fixes imp :: "('a, 'h, 'c, 'j, 'x) imported"
  shows "outcome (toHdf imp this s) = outcome (toHdf imp this s')"
proof (cases "convert imp (checklistObject this)")
  case (Inl e)
  then show ?thesis by (simp add: toHdf_throws outcome_def)
next
  case (Inr v)
  show ?thesis
  proof (cases "length (stigs (checklistObject this)) = 1")
    case True
    with Inr show ?thesis by (simp add: toHdf_single)
  next
    case False
    with Inr show ?thesis
      by (simp add: toHdf_aggregates [OF False Inr, of s] toHdf_aggregates [OF False Inr, of s'])
  qed
qed

lemma ChecklistMapper_toHdf_frame:
  "fresh s \<le> fresh (snd (ChecklistMapper_toHdf imp data s)) \<and>
   (\<forall>r < fresh s. objects (snd (ChecklistMapper_toHdf imp data s)) r = objects s r) \<and>
   (\<forall>execution. fst (ChecklistMapper_toHdf imp data s) = Inr execution \<longrightarrow>
      (\<forall>r \<in> set (profiles execution). r < fresh (snd (ChecklistMapper_toHdf imp data s))))"
  by (cases "convert imp data")
    (auto simp: ChecklistMapper_toHdf_Inl ChecklistMapper_toHdf_Inr newAll_fresh newAll_objects
      newAll_refs)

lemma toHdf_frame:
  fixes imp :: "('a, 'h, 'c, 'j, 'x) imported"
  shows "fresh s \<le> fresh (snd (toHdf imp this s)) \<and>
   (\<forall>r < fresh s. objects (snd (toHdf imp this s)) r = objects s r) \<and>
   (\<forall>execution. fst (toHdf imp this s) = Inr execution \<longrightarrow>
      (\<forall>r \<in> set (profiles execution). r < fresh (snd (toHdf imp this s))))"
proof (cases "length (stigs (checklistObject this)) = 1")
  case True
  then show ?thesis
    using ChecklistMapper_toHdf_frame [of s imp "checklistObject this"]
    by (simp add: toHdf_def)
next
  case False
  show ?thesis
  proof (cases "convert imp (checklistObject this)")
    case (Inl e)
    then show ?thesis by (simp add: toHdf_throws)
  next
    case (Inr v)
    define s0 where "s0 = snd (newAll (profiles v) s)"
    define rs where "rs = fst (newAll (profiles v) s)"
    define parent where "parent = fresh s0"
    define literal :: "('c, 'j) Profile" where "literal =
       \<lparr>name = parentProfileName,
                         version = Defined (HeimdallToolsVersion imp),
                         title = Undefined, summary = Undefined, license = Undefined,
                         supports = [], attributes = [], groups = [],
                         depends = Defined [],
                         status = Undefined,
                         controls = [],
                         parent_profile = Undefined,
                         sha256 = []\<rparr>"
    define s1 where "s1 = snd (new literal s0)"
    define s2 where "s2 = aggregateProfiles imp parent rs s1"
    define s3 where "s3 = assign parent
       (\<lambda>p. p\<lparr>sha256 := generateHash imp (stringify imp (objects s2 parent))\<rparr>) s2"
    have call: "toHdf imp this s = (Inr \<lparr>profiles = rs @ [parent], other = other v\<rparr>, s3)"
      using False Inr
      by (simp add: toHdf_def ChecklistMapper_toHdf_Inr new_def Let_def s0_def rs_def parent_def
          literal_def s1_def s2_def s3_def)
    have rs: "rs = [fresh s ..< fresh s + length (profiles v)]"
      by (simp add: rs_def newAll_refs)
    have parent: "parent = fresh s + length (profiles v)"
      by (simp add: parent_def s0_def newAll_fresh)
    have distinct: "distinct rs" "parent \<notin> set rs"
      by (simp_all add: rs parent)
    have "fresh s2 = fresh s1"
      unfolding s2_def by (rule aggregateProfiles_fresh [OF distinct])
    then have fresh3: "fresh s3 = Suc parent"
      by (simp add: s3_def assign_simps s1_def new_simps parent_def)
    have "objects s3 r = objects s r" if "r < fresh s" for r
    proof -
      from that have out: "r \<notin> set rs" "r \<noteq> parent" by (simp_all add: rs parent)
      then have "objects s3 r = objects s1 r"
        by (simp add: s3_def assign_simps s2_def aggregateProfiles_objects [OF distinct])
      also have "\<dots> = objects s0 r"
        using out by (simp add: s1_def new_simps parent_def)
      also have "\<dots> = objects s r"
        using that by (simp add: s0_def newAll_objects)
      finally show ?thesis .
    qed
    with fresh3 show ?thesis
      unfolding call by (auto simp: rs parent)
  qed
qed

section \<open>The claims\<close>

subsection \<open>Finding details\<close>

text \<open>
  C1, as the code has it. For a finding whose \<^verbatim>\<open>code_desc\<close> is
  \<^verbatim>\<open>"passed\nfoo bar\n--------------------------------\nfailed\nbaz\nexpected: 1\nactual: 2"\<close>,
  whatever its other fields, \<^verbatim>\<open>parseFindingDetails\<close> yields exactly two results. The first
  has status Passed, no message, and the \<^verbatim>\<open>code_desc\<close> \<^verbatim>\<open>"foo bar\n"\<close>: the separator that
  is split on begins with the dashes, so the line feed before them stays. The second has
  status Failed, the \<^verbatim>\<open>code_desc\<close> \<^verbatim>\<open>"ba"\<close>, since the character before the marker
  \<^verbatim>\<open>"\nexpected"\<close> is dropped, and the message \<^verbatim>\<open>"\nexpected: 1\nactual: 2"\<close>, which begins
  with the marker's line feed.
\<close>

theorem parseFindingDetails_example_amended:
  "parseFindingDetails
     [\<lparr>code_desc = Defined ''passed\<newline>foo bar\<newline>--------------------------------\<newline>failed\<newline>baz\<newline>expected: 1\<newline>actual: 2'',
       status = declared, message = m, start_time = t\<rparr>] =
   Inr [\<lparr>code_desc = Defined ''foo bar\<newline>'', status = Defined Passed,
          message = Null, start_time = []\<rparr>,
        \<lparr>code_desc = Defined ''ba'', status = Defined Failed,
          message = Defined ''\<newline>expected: 1\<newline>actual: 2'', start_time = []\<rparr>]"
  by (simp add: parseFindingDetails_def split_def separator_def lineFeed_def parseDetails_def
      splitFirstLine_def statusSet_def indexOf_def expectedMarker_def slice_def sliceFrom_def
      sliceIndex_def getStatus_def toLowerCase_def toLowerCase_char_def)

text \<open>
  C1 as stated does not hold: on that input there are no two results with the
  \<^verbatim>\<open>code_desc\<close> values \<^verbatim>\<open>"foo bar"\<close> and \<^verbatim>\<open>"baz"\<close> and the message \<^verbatim>\<open>"expected: 1\nactual: 2"\<close>.
\<close>

theorem parseFindingDetails_example_counterexample:
  "\<not> (\<exists>first second.
      parseFindingDetails
        [\<lparr>code_desc = Defined ''passed\<newline>foo bar\<newline>--------------------------------\<newline>failed\<newline>baz\<newline>expected: 1\<newline>actual: 2'',
          status = Defined Failed, message = Undefined, start_time = []\<rparr>] = Inr [first, second] \<and>
      ControlResult.status first = Defined Passed \<and> code_desc first = Defined ''foo bar'' \<and>
      ControlResult.status second = Defined Failed \<and> code_desc second = Defined ''baz'' \<and>
      message second = Defined ''expected: 1\<newline>actual: 2'')"
  by (simp add: parseFindingDetails_def split_def separator_def lineFeed_def parseDetails_def
      splitFirstLine_def statusSet_def indexOf_def expectedMarker_def slice_def sliceFrom_def
      sliceIndex_def getStatus_def toLowerCase_def toLowerCase_char_def)

subsection \<open>Impact and status\<close>

text \<open>
  C3. \<^verbatim>\<open>transformImpact\<close> returns 0.0 for every vuln whose status is \<^verbatim>\<open>"Not Applicable"\<close>,
  whatever its severity. For any other status it maps the lower-cased effective severity
  \<^verbatim>\<open>high\<close> to 0.7, \<^verbatim>\<open>medium\<close> to 0.5 and \<^verbatim>\<open>low\<close> to 0.3. The effective severity is the override
  when there is one (a non-empty string), and the severity when the override is missing,
  null or empty. So the override wins: status \<^verbatim>\<open>"Open"\<close>, severity \<^verbatim>\<open>"high"\<close> and override
  \<^verbatim>\<open>"low"\<close> give 0.3.
\<close>

theorem transformImpact_mapping:
  "(ChecklistVuln.status vuln = ''Not Applicable'' \<longrightarrow> transformImpact vuln = Number 0.0) \<and>
   (ChecklistVuln.status vuln \<noteq> ''Not Applicable'' \<longrightarrow>
      (toLowerCase (findSeverity vuln) = ''high'' \<longrightarrow> transformImpact vuln = Number 0.7) \<and>
      (toLowerCase (findSeverity vuln) = ''medium'' \<longrightarrow> transformImpact vuln = Number 0.5) \<and>
      (toLowerCase (findSeverity vuln) = ''low'' \<longrightarrow> transformImpact vuln = Number 0.3)) \<and>
   (\<forall>override. severityoverride vuln = Defined override \<and> override \<noteq> [] \<longrightarrow>
      findSeverity vuln = override) \<and>
   (\<not> truthy (severityoverride vuln) \<longrightarrow> findSeverity vuln = severity vuln) \<and>
   transformImpact
     \<lparr>ChecklistVuln.status = ''Open'', severity = ''high'', severityoverride = Defined ''low''\<rparr>
     = Number 0.3"
proof -
  have "transformImpact
     \<lparr>ChecklistVuln.status = ''Open'', severity = ''high'', severityoverride = Defined ''low''\<rparr>
     = Number 0.3"
    by (simp add: transformImpact_def findSeverity_def ImpactMapping_def toLowerCase_def
        toLowerCase_char_def)
  moreover have "\<not> truthy (severityoverride vuln) \<longrightarrow> findSeverity vuln = severity vuln"
    by (cases "severityoverride vuln") (simp_all add: findSeverity_def)
  ultimately show ?thesis
    by (simp add: transformImpact_def ImpactMapping_def findSeverity_def)
qed

theorem transformImpact_mapping_witness:
  "transformImpact
     \<lparr>ChecklistVuln.status = ''Not Applicable'', severity = ''high'', severityoverride = Undefined\<rparr>
     = Number 0.0 \<and>
   transformImpact
     \<lparr>ChecklistVuln.status = ''Open'', severity = ''low'', severityoverride = Undefined\<rparr>
     = Number 0.3 \<and>
   transformImpact
     \<lparr>ChecklistVuln.status = ''Open'', severity = ''Medium'', severityoverride = Defined []\<rparr>
     = Number 0.5 \<and>
   transformImpact
     \<lparr>ChecklistVuln.status = ''Open'', severity = ''low'', severityoverride = Defined ''HIGH''\<rparr>
     = Number 0.7"
  using
    transformImpact_mapping [of "\<lparr>ChecklistVuln.status = ''Not Applicable'', severity = ''high'', severityoverride = Undefined\<rparr>"]
    transformImpact_mapping [of "\<lparr>ChecklistVuln.status = ''Open'', severity = ''low'', severityoverride = Undefined\<rparr>"]
    transformImpact_mapping [of "\<lparr>ChecklistVuln.status = ''Open'', severity = ''Medium'', severityoverride = Defined []\<rparr>"]
    transformImpact_mapping [of "\<lparr>ChecklistVuln.status = ''Open'', severity = ''low'', severityoverride = Defined ''HIGH''\<rparr>"]
  by (simp add: toLowerCase_def toLowerCase_char_def)

text \<open>
  C4 asks that a vuln whose status is not \<^verbatim>\<open>"Not Applicable"\<close> and whose effective severity
  is not high, medium or low in any letter case gets a default impact, the number 0. The
  code does not do that: for status \<^verbatim>\<open>"Open"\<close> and severity \<^verbatim>\<open>"critical"\<close> the lookup in the
  enum object finds no member, and \<^verbatim>\<open>transformImpact\<close> returns \<^verbatim>\<open>undefined\<close>, which is no number,
  although its signature and its \<^verbatim>\<open>@returns\<close> promise one and its own comment marks the
  check for a missing mapping as still to be written.
\<close>

theorem transformImpact_critical_undefined:
  "ChecklistVuln.status
     \<lparr>ChecklistVuln.status = ''Open'', severity = ''critical'', severityoverride = Undefined\<rparr>
     \<noteq> ''Not Applicable'' \<and>
   toLowerCase (findSeverity
     \<lparr>ChecklistVuln.status = ''Open'', severity = ''critical'', severityoverride = Undefined\<rparr>)
     \<notin> {''high'', ''medium'', ''low''} \<and>
   transformImpact
     \<lparr>ChecklistVuln.status = ''Open'', severity = ''critical'', severityoverride = Undefined\<rparr>
     = NoImpact \<and>
   transformImpact
     \<lparr>ChecklistVuln.status = ''Open'', severity = ''critical'', severityoverride = Undefined\<rparr>
     \<noteq> Number 0"
  by (simp add: transformImpact_def findSeverity_def ImpactMapping_def toLowerCase_def
      toLowerCase_char_def)

text \<open>
  C5. \<^verbatim>\<open>getStatus\<close> returns a status for every string: Passed exactly when the lower-cased
  input is \<^verbatim>\<open>"notafinding"\<close> or \<^verbatim>\<open>"passed"\<close>, Failed exactly when it is \<^verbatim>\<open>"open"\<close> or
  \<^verbatim>\<open>"failed"\<close>, Error exactly when it is \<^verbatim>\<open>"error"\<close>, and Skipped for every other string, such
  as \<^verbatim>\<open>"N/A"\<close>.
\<close>

theorem getStatus_total:
  "(getStatus input = Passed \<longleftrightarrow>
      toLowerCase input = ''notafinding'' \<or> toLowerCase input = ''passed'') \<and>
   (getStatus input = Failed \<longleftrightarrow>
      toLowerCase input = ''open'' \<or> toLowerCase input = ''failed'') \<and>
   (getStatus input = Error \<longleftrightarrow> toLowerCase input = ''error'') \<and>
   (getStatus input = Skipped \<longleftrightarrow>
      toLowerCase input \<notin> {''notafinding'', ''passed'', ''open'', ''failed'', ''error''}) \<and>
   getStatus ''NotAFinding'' = Passed \<and> getStatus ''Open'' = Failed \<and>
   getStatus ''N/A'' = Skipped"
proof -
  have "getStatus ''NotAFinding'' = Passed \<and> getStatus ''Open'' = Failed \<and>
      getStatus ''N/A'' = Skipped"
    by (simp add: getStatus_def toLowerCase_def toLowerCase_char_def)
  moreover have "(getStatus input = Passed \<longleftrightarrow>
      toLowerCase input = ''notafinding'' \<or> toLowerCase input = ''passed'') \<and>
   (getStatus input = Failed \<longleftrightarrow>
      toLowerCase input = ''open'' \<or> toLowerCase input = ''failed'') \<and>
   (getStatus input = Error \<longleftrightarrow> toLowerCase input = ''error'') \<and>
   (getStatus input = Skipped \<longleftrightarrow>
      toLowerCase input \<notin> {''notafinding'', ''passed'', ''open'', ''failed'', ''error''})"
    by (simp add: getStatus_def Let_def)
  ultimately show ?thesis
    by (simp only: simp_thms)
qed

subsection \<open>The pieces of the finding details\<close>

text \<open>
  C6 asks that \<^verbatim>\<open>parseFindingDetails\<close> emits, for every piece of the finding details whose
  first line is not one of the words \<^verbatim>\<open>passed\<close>, \<^verbatim>\<open>failed\<close>, \<^verbatim>\<open>skipped\<close>, \<^verbatim>\<open>error\<close>, a result with
  the whole piece as \<^verbatim>\<open>code_desc\<close> and the status the finding declares. The loop body builds
  that result, but the call does not always return it. The finding details
  \<^verbatim>\<open>"ok\n--------------------------------\nerror"\<close> have the pieces \<^verbatim>\<open>"ok\n"\<close> and \<^verbatim>\<open>"error"\<close>.
  The first line of \<^verbatim>\<open>"ok\n"\<close> is no status word, and the loop body gives it the result the
  claim describes. The piece \<^verbatim>\<open>"error"\<close> is a status word with no line feed after it, so
  \<^verbatim>\<open>descAndMessage\<close> is \<^verbatim>\<open>undefined\<close> and \<^verbatim>\<open>descAndMessage.indexOf\<close> throws a TypeError: the call
  ends without any result, also none for \<^verbatim>\<open>"ok\n"\<close>.
\<close>

theorem parseFindingDetails_bare_status_word_throws:
  "split ''ok\<newline>--------------------------------\<newline>error'' separator = [''ok\<newline>'', ''error''] \<and>
   fst (splitFirstLine ''ok\<newline>'') \<notin> set statusSet \<and>
   parseDetails
     \<lparr>code_desc = Defined ''ok\<newline>--------------------------------\<newline>error'',
       status = Defined Failed, message = Undefined, start_time = []\<rparr> ''ok\<newline>'' =
     Inr \<lparr>code_desc = Defined ''ok\<newline>'', status = Defined Failed,
          message = Null, start_time = []\<rparr> \<and>
   parseDetails
     \<lparr>code_desc = Defined ''ok\<newline>--------------------------------\<newline>error'',
       status = Defined Failed, message = Undefined, start_time = []\<rparr> ''error'' =
     Inl TypeError \<and>
   parseFindingDetails
     [\<lparr>code_desc = Defined ''ok\<newline>--------------------------------\<newline>error'',
        status = Defined Failed, message = Undefined, start_time = []\<rparr>] =
     Inl TypeError"
proof -
  have pieces: "split ''ok\<newline>--------------------------------\<newline>error'' separator =
      [''ok\<newline>'', ''error'']"
    by (simp add: split_def separator_def lineFeed_def)
  have first: "fst (splitFirstLine ''ok\<newline>'') \<notin> set statusSet"
    by (simp add: splitFirstLine_def statusSet_def lineFeed_def)
  note body = parseDetails_no_status_word [OF first,
      of "\<lparr>code_desc = Defined ''ok\<newline>--------------------------------\<newline>error'',
            status = Defined Failed, message = Undefined, start_time = []\<rparr>"]
  have bare: "parseDetails
     \<lparr>code_desc = Defined ''ok\<newline>--------------------------------\<newline>error'',
       status = Defined Failed, message = Undefined, start_time = []\<rparr> ''error'' =
     Inl TypeError"
    by (simp add: parseDetails_throws statusSet_def)
  have call: "parseFindingDetails
     [\<lparr>code_desc = Defined ''ok\<newline>--------------------------------\<newline>error'',
        status = Defined Failed, message = Undefined, start_time = []\<rparr>] =
     Inl TypeError"
    by (simp add: parseFindingDetails_def pieces body bare)
  from pieces first body bare call show ?thesis
    by simp
qed

text \<open>
  C9. Let the first line of a piece be a status word and let \<open>k\<close> be the result of
  \<^verbatim>\<open>indexOf\<close>, the index of the first \<^verbatim>\<open>"\nexpected"\<close> in the remainder. If \<open>k > 0\<close>, the marker
  is at index \<open>k\<close> and nowhere before, the \<^verbatim>\<open>code_desc\<close> of the result is the first
  \<open>k - 1\<close> characters of the remainder, so the character just before the marker is dropped,
  and the message is the remainder from index \<open>k\<close> on, which begins with the marker and so
  with its line feed. The remainder begins with the marker exactly when \<open>k = 0\<close>; then the
  marker counts as absent: the whole remainder is the \<^verbatim>\<open>code_desc\<close> and the message is
  \<^verbatim>\<open>null\<close>. The result of the piece is the one \<^verbatim>\<open>parseFindingDetails\<close> returns at the position
  of the piece, for a finding none of whose pieces is a bare status word.
\<close>

theorem parseFindingDetails_expected_marker:
  assumes "splitFirstLine details = (findingStatus, Defined descAndMessage)"
    and "findingStatus \<in> set statusSet"
    and "indexOf descAndMessage expectedMarker = k"
  shows "(0 < k \<longrightarrow>
       parseDetails finding details =
         Inr \<lparr>code_desc = Defined (take (nat k - 1) descAndMessage),
              status = Defined (getStatus findingStatus),
              message = Defined (drop (nat k) descAndMessage),
              start_time = []\<rparr> \<and>
       startsWith (drop (nat k) descAndMessage) expectedMarker \<and>
       (\<forall>j < nat k. \<not> startsWith (drop j descAndMessage) expectedMarker)) \<and>
     (startsWith descAndMessage expectedMarker \<longrightarrow> k = 0) \<and>
     (k = 0 \<longrightarrow>
       startsWith descAndMessage expectedMarker \<and>
       parseDetails finding details =
         Inr \<lparr>code_desc = Defined descAndMessage,
              status = Defined (getStatus findingStatus),
              message = Null,
              start_time = []\<rparr>) \<and>
     (code_desc finding = Defined cd \<and> cd \<noteq> [] \<and>
      (\<forall>d \<in> set (split cd separator). d \<notin> set statusSet) \<and>
      i < length (split cd separator) \<and> split cd separator ! i = details \<longrightarrow>
        (\<exists>rs. parseFindingDetails [finding] = Inr rs \<and>
           length rs = length (split cd separator) \<and>
           Inr (rs ! i) = parseDetails finding details))"
proof (intro conjI impI)
  assume pos: "0 < k"
  then have found: "startsWith (drop (nat k) descAndMessage) expectedMarker"
    using indexOf_found(2) [of descAndMessage expectedMarker] assms(3) by simp
  then show "startsWith (drop (nat k) descAndMessage) expectedMarker" .
  show "\<forall>j < nat k. \<not> startsWith (drop j descAndMessage) expectedMarker"
    using indexOf_first [of descAndMessage expectedMarker] pos assms(3) by simp
  from found have ne: "drop (nat k) descAndMessage \<noteq> []"
    by (auto simp: expectedMarker_def)
  have "nat (k - 1) = nat k - 1"
    by simp
  with pos ne assms show "parseDetails finding details =
         Inr \<lparr>code_desc = Defined (take (nat k - 1) descAndMessage),
              status = Defined (getStatus findingStatus),
              message = Defined (drop (nat k) descAndMessage),
              start_time = []\<rparr>"
    by (simp add: parseDetails_def Let_def slice_prefix sliceFrom_drop)
next
  assume "startsWith descAndMessage expectedMarker"
  then show "k = 0"
    using indexOf_startsWith assms(3) by blast
next
  assume z: "k = 0"
  then show "startsWith descAndMessage expectedMarker"
    using indexOf_found(2) [of descAndMessage expectedMarker] assms(3) by simp
  from z assms show "parseDetails finding details =
         Inr \<lparr>code_desc = Defined descAndMessage,
              status = Defined (getStatus findingStatus),
              message = Null,
              start_time = []\<rparr>"
    by (simp add: parseDetails_def)
next
  assume a: "code_desc finding = Defined cd \<and> cd \<noteq> [] \<and>
      (\<forall>d \<in> set (split cd separator). d \<notin> set statusSet) \<and>
      i < length (split cd separator) \<and> split cd separator ! i = details"
  then obtain rs where rs: "parseFindingDetails [finding] = Inr rs"
    "length rs = length (split cd separator)"
    "\<forall>i < length (split cd separator). parseDetails finding (split cd separator ! i) = Inr (rs ! i)"
    using parseFindingDetails_emits [of finding cd] by blast
  from a rs(3) have "Inr (rs ! i) = parseDetails finding details"
    by auto
  with rs(1,2) show "\<exists>rs. parseFindingDetails [finding] = Inr rs \<and>
           length rs = length (split cd separator) \<and>
           Inr (rs ! i) = parseDetails finding details"
    by simp
qed

theorem parseFindingDetails_expected_marker_witness:
  "splitFirstLine ''failed\<newline>x is 1\<newline>\<newline>expected: 1'' = (''failed'', Defined ''x is 1\<newline>\<newline>expected: 1'') \<and>
   ''failed'' \<in> set statusSet \<and>
   indexOf ''x is 1\<newline>\<newline>expected: 1'' expectedMarker = 7 \<and>
   parseDetails \<lparr>code_desc = Defined ''failed\<newline>x is 1\<newline>\<newline>expected: 1'', status = Defined Failed,
       message = Undefined, start_time = []\<rparr> ''failed\<newline>x is 1\<newline>\<newline>expected: 1'' =
     Inr \<lparr>code_desc = Defined ''x is 1'', status = Defined Failed,
          message = Defined ''\<newline>expected: 1'', start_time = []\<rparr> \<and>
   parseFindingDetails [\<lparr>code_desc = Defined ''failed\<newline>x is 1\<newline>\<newline>expected: 1'', status = Defined Failed,
       message = Undefined, start_time = []\<rparr>] =
     Inr [\<lparr>code_desc = Defined ''x is 1'', status = Defined Failed,
          message = Defined ''\<newline>expected: 1'', start_time = []\<rparr>] \<and>
   splitFirstLine ''passed\<newline>\<newline>expected: 1'' = (''passed'', Defined ''\<newline>expected: 1'') \<and>
   indexOf ''\<newline>expected: 1'' expectedMarker = 0 \<and>
   parseDetails \<lparr>code_desc = Defined ''passed\<newline>\<newline>expected: 1'', status = Defined Failed,
       message = Undefined, start_time = []\<rparr> ''passed\<newline>\<newline>expected: 1'' =
     Inr \<lparr>code_desc = Defined ''\<newline>expected: 1'', status = Defined Passed,
          message = Null, start_time = []\<rparr>"
proof -
  have h1: "splitFirstLine ''failed\<newline>x is 1\<newline>\<newline>expected: 1'' = (''failed'', Defined ''x is 1\<newline>\<newline>expected: 1'')"
    by (simp add: splitFirstLine_def lineFeed_def)
  have h2: "''failed'' \<in> set statusSet"
    by (simp add: statusSet_def)
  have h3: "indexOf ''x is 1\<newline>\<newline>expected: 1'' expectedMarker = 7"
    by (simp add: indexOf_def expectedMarker_def lineFeed_def)
  have g1: "splitFirstLine ''passed\<newline>\<newline>expected: 1'' = (''passed'', Defined ''\<newline>expected: 1'')"
    by (simp add: splitFirstLine_def lineFeed_def)
  have g2: "''passed'' \<in> set statusSet"
    by (simp add: statusSet_def)
  have g3: "indexOf ''\<newline>expected: 1'' expectedMarker = 0"
    by (simp add: indexOf_def expectedMarker_def lineFeed_def)
  have sp: "split ''failed\<newline>x is 1\<newline>\<newline>expected: 1'' separator = [''failed\<newline>x is 1\<newline>\<newline>expected: 1'']"
    by (simp add: split_def separator_def lineFeed_def)
  have st: "getStatus ''failed'' = Failed" "getStatus ''passed'' = Passed"
    by (simp_all add: getStatus_def toLowerCase_def toLowerCase_char_def)
  note a = parseFindingDetails_expected_marker [OF h1 h2 h3,
      of "\<lparr>code_desc = Defined ''failed\<newline>x is 1\<newline>\<newline>expected: 1'', status = Defined Failed,
       message = Undefined, start_time = []\<rparr>" "''failed\<newline>x is 1\<newline>\<newline>expected: 1''" 0]
  note b = parseFindingDetails_expected_marker [OF g1 g2 g3,
      of "\<lparr>code_desc = Defined ''passed\<newline>\<newline>expected: 1'', status = Defined Failed,
       message = Undefined, start_time = []\<rparr>" "[]" 0]
  from a have a1: "parseDetails \<lparr>code_desc = Defined ''failed\<newline>x is 1\<newline>\<newline>expected: 1'', status = Defined Failed,
       message = Undefined, start_time = []\<rparr> ''failed\<newline>x is 1\<newline>\<newline>expected: 1'' =
     Inr \<lparr>code_desc = Defined ''x is 1'', status = Defined Failed,
          message = Defined ''\<newline>expected: 1'', start_time = []\<rparr>"
    by (simp add: st)
  from a have a2: "parseFindingDetails [\<lparr>code_desc = Defined ''failed\<newline>x is 1\<newline>\<newline>expected: 1'', status = Defined Failed,
       message = Undefined, start_time = []\<rparr>] =
     Inr [\<lparr>code_desc = Defined ''x is 1'', status = Defined Failed,
          message = Defined ''\<newline>expected: 1'', start_time = []\<rparr>]"
    unfolding a1 sp by (auto simp: statusSet_def length_Suc_conv)
  from b have b1: "parseDetails \<lparr>code_desc = Defined ''passed\<newline>\<newline>expected: 1'', status = Defined Failed,
       message = Undefined, start_time = []\<rparr> ''passed\<newline>\<newline>expected: 1'' =
     Inr \<lparr>code_desc = Defined ''\<newline>expected: 1'', status = Defined Passed,
          message = Null, start_time = []\<rparr>"
    by (simp add: st)
  from h1 h2 h3 g1 g3 a1 a2 b1 show ?thesis by blast
qed

text \<open>
  C10. A finding whose \<^verbatim>\<open>code_desc\<close> is missing, null or empty is passed on as it is: alone
  it is the only result, and among other findings it stands unchanged between the results
  of the findings before it and those of the findings after it.
\<close>

theorem parseFindingDetails_passes_falsy_code_desc:
  assumes "\<not> truthy (code_desc finding)"
  shows "parseFindingDetails [finding] = Inr [finding] \<and>
    parseFindingDetails (before @ finding # after) =
      (case parseFindingDetails before of
         Inl e \<Rightarrow> Inl e
       | Inr rs \<Rightarrow>
           (case parseFindingDetails after of
              Inl e \<Rightarrow> Inl e
            | Inr rs' \<Rightarrow> Inr (rs @ finding # rs')))"
proof -
  have one: "parseFindingDetails [finding] = Inr [finding]"
    using assms by (rule parseFindingDetails_falsy)
  have "parseFindingDetails (before @ [finding] @ after) =
      (case parseFindingDetails before of
         Inl e \<Rightarrow> Inl e
       | Inr rs \<Rightarrow>
           (case parseFindingDetails after of
              Inl e \<Rightarrow> Inl e
            | Inr rs' \<Rightarrow> Inr (rs @ finding # rs')))"
    unfolding parseFindingDetails_append [of before] parseFindingDetails_append [of "[finding]"] one
    by (simp split: sum.splits)
  with one show ?thesis by simp
qed

theorem parseFindingDetails_passes_falsy_code_desc_witness:
  "\<not> truthy (code_desc \<lparr>code_desc = Defined [], status = Defined Failed, message = Undefined, start_time = []\<rparr>) \<and>
   \<not> truthy (code_desc \<lparr>code_desc = Undefined, status = Defined Passed, message = Undefined, start_time = []\<rparr>) \<and>
   parseFindingDetails
     [\<lparr>code_desc = Defined [], status = Defined Failed, message = Undefined, start_time = []\<rparr>] =
     Inr [\<lparr>code_desc = Defined [], status = Defined Failed, message = Undefined, start_time = []\<rparr>] \<and>
   parseFindingDetails
     [\<lparr>code_desc = Defined ''passed\<newline>ok'', status = Defined Failed, message = Undefined, start_time = []\<rparr>,
      \<lparr>code_desc = Undefined, status = Defined Passed, message = Undefined, start_time = []\<rparr>] =
     Inr [\<lparr>code_desc = Defined ''ok'', status = Defined Passed, message = Null, start_time = []\<rparr>,
          \<lparr>code_desc = Undefined, status = Defined Passed, message = Undefined, start_time = []\<rparr>]"
proof -
  have first: "parseFindingDetails
     [\<lparr>code_desc = Defined ''passed\<newline>ok'', status = Defined Failed, message = Undefined, start_time = []\<rparr>] =
     Inr [\<lparr>code_desc = Defined ''ok'', status = Defined Passed, message = Null, start_time = []\<rparr>]"
    by (simp add: parseFindingDetails_def split_def separator_def lineFeed_def parseDetails_def
      splitFirstLine_def statusSet_def indexOf_def expectedMarker_def
      getStatus_def toLowerCase_def toLowerCase_char_def)
  have empty: "parseFindingDetails [] = Inr []"
    by (simp add: parseFindingDetails_def)
  show ?thesis
    using
      parseFindingDetails_passes_falsy_code_desc
        [of "\<lparr>code_desc = Defined [], status = Defined Failed, message = Undefined, start_time = []\<rparr>"
          "[]" "[]"]
      parseFindingDetails_passes_falsy_code_desc
        [of "\<lparr>code_desc = Undefined, status = Defined Passed, message = Undefined, start_time = []\<rparr>"
          "[\<lparr>code_desc = Defined ''passed\<newline>ok'', status = Defined Failed, message = Undefined, start_time = []\<rparr>]"
          "[]"]
    by (simp add: first empty)
qed

subsection \<open>The parent profile\<close>

text \<open>
  C2. When the checklist object has more than one STIG and the mapper returns a record,
  \<^verbatim>\<open>toHdf\<close> returns that record with one more profile at the end of \<^verbatim>\<open>profiles\<close>, the parent
  profile. Its \<^verbatim>\<open>depends\<close> holds the name of every profile of the mapper's record, in their
  order; its \<^verbatim>\<open>controls\<close> is the concatenation of their \<^verbatim>\<open>controls\<close>, in their order; and every
  one of them is returned with \<^verbatim>\<open>parent_profile\<close> set to the name of the parent profile and,
  but for its hash, nothing else changed. So when the mapper makes one profile per STIG
  with one control per vuln, two STIGs with 3 and 5 vulns give 3 profiles and a parent
  profile with 8 controls.
\<close>

theorem toHdf_parent_profile:
  fixes imp :: "('a, 'h, 'c, 'j, 'x) imported"
  assumes "1 < length (stigs (checklistObject this))"
    and "convert imp (checklistObject this) = Inr v"
  shows "\<exists>out. outcome (toHdf imp this s) = Inr out \<and>
    length (profiles out) = length (profiles v) + 1 \<and>
    name (last (profiles out)) = parentProfileName \<and>
    depends (last (profiles out)) = Defined (map (\<lambda>p. \<lparr>Dependency.name = name p\<rparr>) (profiles v)) \<and>
    controls (last (profiles out)) = concat (map controls (profiles v)) \<and>
    (\<forall>i < length (profiles v).
       parent_profile (profiles out ! i) = Defined (name (last (profiles out))) \<and>
       profiles out ! i =
         (profiles v ! i)\<lparr>parent_profile := Defined parentProfileName,
                           sha256 := sha256 (profiles out ! i)\<rparr>) \<and>
    (map (\<lambda>p. length (controls p)) (profiles v) =
       map (\<lambda>stig. length (vulns stig)) (stigs (checklistObject this)) \<and>
     map (\<lambda>stig. length (vulns stig)) (stigs (checklistObject this)) = [3, 5] \<longrightarrow>
       length (profiles out) = 3 \<and> length (controls (last (profiles out))) = 8)"
proof -
  from assms(1) have "length (stigs (checklistObject this)) \<noteq> 1" by simp
  note out = toHdf_aggregates [OF this assms(2), of s]
  have sizes: "length (concat (map controls (profiles v))) = 8 \<and> length (profiles v) = 2"
    if "map (\<lambda>p. length (controls p)) (profiles v) = [3, 5]"
  proof -
    have "length (concat (map controls (profiles v))) =
        sum_list (map (\<lambda>p. length (controls p)) (profiles v))"
      by (simp add: length_concat comp_def)
    moreover have "length (profiles v) = length (map (\<lambda>p. length (controls p)) (profiles v))"
      by simp
    ultimately show ?thesis unfolding that by simp
  qed
  show ?thesis
    unfolding out using sizes by (auto simp: nth_append)
qed

theorem toHdf_parent_profile_witness:
  "1 < length (stigs (checklistObject exampleResults)) \<and>
   (\<exists>v. convert exampleImported (checklistObject exampleResults) = Inr v \<and>
      map (\<lambda>p. length (controls p)) (profiles v) =
        map (\<lambda>stig. length (vulns stig)) (stigs (checklistObject exampleResults))) \<and>
   map (\<lambda>stig. length (vulns stig)) (stigs (checklistObject exampleResults)) = [3, 5] \<and>
   (\<exists>out. outcome (toHdf exampleImported exampleResults exampleStore) = Inr out \<and>
      length (profiles out) = 3 \<and>
      length (controls (last (profiles out))) = 8 \<and>
      depends (last (profiles out)) =
        Defined [\<lparr>Dependency.name = ''STIG A''\<rparr>, \<lparr>Dependency.name = ''STIG B''\<rparr>] \<and>
      parent_profile (profiles out ! 0) = Defined ''Parent Profile'' \<and>
      parent_profile (profiles out ! 1) = Defined ''Parent Profile'')"
proof -
  define v :: "((impact, unit) Profile, unit) Execution"
    where "v = \<lparr>profiles = map exampleProfile (stigs (checklistObject exampleResults)), other = ()\<rparr>"
  have h1: "1 < length (stigs (checklistObject exampleResults))"
    by (simp add: exampleResults_def)
  have h2: "convert exampleImported (checklistObject exampleResults) = Inr v"
    by (simp add: exampleImported_def v_def)
  have sizes: "map (\<lambda>p. length (controls p)) (profiles v) =
      map (\<lambda>stig. length (vulns stig)) (stigs (checklistObject exampleResults))"
    by (simp add: v_def exampleResults_def exampleProfile_def)
  have vulns: "map (\<lambda>stig. length (vulns stig)) (stigs (checklistObject exampleResults)) = [3, 5]"
    by (simp add: exampleResults_def)
  have two: "length (profiles v) = 2"
    by (simp add: v_def exampleResults_def)
  have names: "map (\<lambda>p. \<lparr>Dependency.name = name p\<rparr>) (profiles v) =
      [\<lparr>Dependency.name = ''STIG A''\<rparr>, \<lparr>Dependency.name = ''STIG B''\<rparr>]"
    by (simp add: v_def exampleResults_def exampleProfile_def)
  from toHdf_parent_profile [OF h1 h2, of exampleStore]
  obtain out where out: "outcome (toHdf exampleImported exampleResults exampleStore) = Inr out"
    and parent: "name (last (profiles out)) = parentProfileName"
    and deps: "depends (last (profiles out)) =
        Defined (map (\<lambda>p. \<lparr>Dependency.name = name p\<rparr>) (profiles v))"
    and children: "\<forall>i < length (profiles v).
        parent_profile (profiles out ! i) = Defined (name (last (profiles out))) \<and>
        profiles out ! i =
          (profiles v ! i)\<lparr>parent_profile := Defined parentProfileName,
                            sha256 := sha256 (profiles out ! i)\<rparr>"
    and example: "map (\<lambda>p. length (controls p)) (profiles v) =
          map (\<lambda>stig. length (vulns stig)) (stigs (checklistObject exampleResults)) \<and>
        map (\<lambda>stig. length (vulns stig)) (stigs (checklistObject exampleResults)) = [3, 5] \<longrightarrow>
        length (profiles out) = 3 \<and> length (controls (last (profiles out))) = 8"
    by blast
  from children two parent
  have "parent_profile (profiles out ! 0) = Defined ''Parent Profile''"
    and "parent_profile (profiles out ! 1) = Defined ''Parent Profile''"
    by (simp_all add: parentProfileName_def)
  with out deps example sizes vulns names
  have ex_out: "\<exists>out. outcome (toHdf exampleImported exampleResults exampleStore) = Inr out \<and>
      length (profiles out) = 3 \<and>
      length (controls (last (profiles out))) = 8 \<and>
      depends (last (profiles out)) =
        Defined [\<lparr>Dependency.name = ''STIG A''\<rparr>, \<lparr>Dependency.name = ''STIG B''\<rparr>] \<and>
      parent_profile (profiles out ! 0) = Defined ''Parent Profile'' \<and>
      parent_profile (profiles out ! 1) = Defined ''Parent Profile''"
    by (intro exI [of _ out]) simp
  from h2 sizes have ex_v: "\<exists>v. convert exampleImported (checklistObject exampleResults) = Inr v \<and>
      map (\<lambda>p. length (controls p)) (profiles v) =
        map (\<lambda>stig. length (vulns stig)) (stigs (checklistObject exampleResults))"
    by (intro exI [of _ v] conjI)
  show ?thesis
    by (rule conjI [OF h1 conjI [OF ex_v conjI [OF vulns ex_out]]])
qed

text \<open>
  C7. In the same case every hash is taken after the last change of the profile it
  belongs to. A profile of the mapper's record is returned as it was, with
  \<^verbatim>\<open>parent_profile\<close> assigned and the hash replaced, and its hash is the hash of the
  serialisation of that returned content, in which only the field \<^verbatim>\<open>sha256\<close> itself still
  has the value the mapper left. The hash of the parent profile is the hash of the
  serialisation of the returned parent profile, with all names in \<^verbatim>\<open>depends\<close> and all
  controls, in which only \<^verbatim>\<open>sha256\<close> is still the empty string.
\<close>

theorem toHdf_hashes_last:
  fixes imp :: "('a, 'h, 'c, 'j, 'x) imported"
  assumes "1 < length (stigs (checklistObject this))"
    and "convert imp (checklistObject this) = Inr v"
  shows "\<exists>out. outcome (toHdf imp this s) = Inr out \<and>
    length (profiles out) = length (profiles v) + 1 \<and>
    (\<forall>i < length (profiles v).
       profiles out ! i =
         (profiles v ! i)\<lparr>parent_profile := Defined parentProfileName,
                           sha256 := sha256 (profiles out ! i)\<rparr> \<and>
       sha256 (profiles out ! i) =
         generateHash imp
           (stringify imp ((profiles out ! i)\<lparr>sha256 := sha256 (profiles v ! i)\<rparr>))) \<and>
    depends (last (profiles out)) = Defined (map (\<lambda>p. \<lparr>Dependency.name = name p\<rparr>) (profiles v)) \<and>
    controls (last (profiles out)) = concat (map controls (profiles v)) \<and>
    sha256 (last (profiles out)) =
      generateHash imp (stringify imp ((last (profiles out))\<lparr>sha256 := []\<rparr>))"
proof -
  from assms(1) have "length (stigs (checklistObject this)) \<noteq> 1" by simp
  note out = toHdf_aggregates [OF this assms(2), of s]
  show ?thesis
    unfolding out by (auto simp: nth_append)
qed

theorem toHdf_hashes_last_witness:
  "1 < length (stigs (checklistObject exampleResults)) \<and>
   convert exampleImported (checklistObject exampleResults) =
     Inr \<lparr>profiles = map exampleProfile (stigs (checklistObject exampleResults)), other = ()\<rparr> \<and>
   (\<exists>out. outcome (toHdf exampleImported exampleResults exampleStore) = Inr out \<and>
      length (profiles out) = 3 \<and>
      parent_profile (profiles out ! 0) = Defined ''Parent Profile'' \<and>
      sha256 (profiles out ! 0) = ''#STIG A < Parent Profile'' \<and>
      parent_profile (profiles out ! 1) = Defined ''Parent Profile'' \<and>
      sha256 (profiles out ! 1) = ''#STIG B < Parent Profile'' \<and>
      length (controls (last (profiles out))) = 8 \<and>
      sha256 (last (profiles out)) =
        generateHash exampleImported
          (stringify exampleImported ((last (profiles out))\<lparr>sha256 := []\<rparr>)))"
proof -
  define v :: "((impact, unit) Profile, unit) Execution"
    where "v = \<lparr>profiles = map exampleProfile (stigs (checklistObject exampleResults)), other = ()\<rparr>"
  have h1: "1 < length (stigs (checklistObject exampleResults))"
    by (simp add: exampleResults_def)
  have h2: "convert exampleImported (checklistObject exampleResults) = Inr v"
    by (simp add: exampleImported_def v_def)
  have two: "length (profiles v) = 2"
    by (simp add: v_def exampleResults_def)
  have v0: "name (profiles v ! 0) = ''STIG A''" "sha256 (profiles v ! 0) = []"
    and v1: "name (profiles v ! 1) = ''STIG B''" "sha256 (profiles v ! 1) = []"
    by (simp_all add: v_def exampleResults_def exampleProfile_def)
  have eight: "length (concat (map controls (profiles v))) = 8"
    by (simp add: v_def exampleResults_def exampleProfile_def)
  from toHdf_hashes_last [OF h1 h2, of exampleStore]
  obtain out where out: "outcome (toHdf exampleImported exampleResults exampleStore) = Inr out"
    and len: "length (profiles out) = length (profiles v) + 1"
    and children: "\<forall>i < length (profiles v).
       profiles out ! i =
         (profiles v ! i)\<lparr>parent_profile := Defined parentProfileName,
                           sha256 := sha256 (profiles out ! i)\<rparr> \<and>
       sha256 (profiles out ! i) =
         generateHash exampleImported
           (stringify exampleImported ((profiles out ! i)\<lparr>sha256 := sha256 (profiles v ! i)\<rparr>))"
    and ctls: "controls (last (profiles out)) = concat (map controls (profiles v))"
    and hash: "sha256 (last (profiles out)) =
      generateHash exampleImported (stringify exampleImported ((last (profiles out))\<lparr>sha256 := []\<rparr>))"
    by blast
  define a where "a = profiles out ! 0"
  define b where "b = profiles out ! 1"
  have less: "0 < length (profiles v)" "1 < length (profiles v)"
    using two by simp_all
  have a: "a = (profiles v ! 0)\<lparr>parent_profile := Defined parentProfileName, sha256 := sha256 a\<rparr>"
    "sha256 a = generateHash exampleImported (stringify exampleImported (a\<lparr>sha256 := sha256 (profiles v ! 0)\<rparr>))"
    using children [rule_format, OF less(1)] unfolding a_def by blast+
  have b: "b = (profiles v ! 1)\<lparr>parent_profile := Defined parentProfileName, sha256 := sha256 b\<rparr>"
    "sha256 b = generateHash exampleImported (stringify exampleImported (b\<lparr>sha256 := sha256 (profiles v ! 1)\<rparr>))"
    using children [rule_format, OF less(2)] unfolding b_def by blast+
  have pa: "parent_profile a = Defined ''Parent Profile''" "name a = ''STIG A''"
    by (subst a(1), simp add: parentProfileName_def v0)+
  have pb: "parent_profile b = Defined ''Parent Profile''" "name b = ''STIG B''"
    by (subst b(1), simp add: parentProfileName_def v1 [simplified])+
  from a(2) pa v0 have ha: "sha256 a = ''#STIG A < Parent Profile''"
    by (simp add: exampleImported_def)
  from b(2) pb v1 have hb: "sha256 b = ''#STIG B < Parent Profile''"
    by (simp add: exampleImported_def)
  from out len two ctls eight hash pa(1) pb(1) ha hb
  have "\<exists>out. outcome (toHdf exampleImported exampleResults exampleStore) = Inr out \<and>
      length (profiles out) = 3 \<and>
      parent_profile (profiles out ! 0) = Defined ''Parent Profile'' \<and>
      sha256 (profiles out ! 0) = ''#STIG A < Parent Profile'' \<and>
      parent_profile (profiles out ! 1) = Defined ''Parent Profile'' \<and>
      sha256 (profiles out ! 1) = ''#STIG B < Parent Profile'' \<and>
      length (controls (last (profiles out))) = 8 \<and>
      sha256 (last (profiles out)) =
        generateHash exampleImported
          (stringify exampleImported ((last (profiles out))\<lparr>sha256 := []\<rparr>))"
    unfolding a_def b_def by (intro exI [of _ out]) simp
  from h1 h2 [unfolded v_def] this show ?thesis
    by (intro conjI)
qed

text \<open>
  C8. Two calls of \<^verbatim>\<open>toHdf\<close> on the same instance, the second starting in the store the first
  has left, return records with the same content, hashes included, or the same error,
  whatever the number of STIGs; and the second call leaves the record the first has
  returned as it was.
\<close>

theorem toHdf_twice:
  fixes imp :: "('a, 'h, 'c, 'j, 'x) imported"
  assumes "toHdf imp this s = (first, s1)" and "toHdf imp this s1 = (second, s2)"
  shows "outcome (second, s2) = outcome (first, s1) \<and> outcome (first, s2) = outcome (first, s1)"
proof
  show "outcome (second, s2) = outcome (first, s1)"
    using toHdf_outcome_store [of imp this s1 s] assms by simp
  show "outcome (first, s2) = outcome (first, s1)"
  proof (cases first)
    case (Inl e)
    then show ?thesis by (simp add: outcome_def)
  next
    case (Inr execution)
    have "\<forall>r \<in> set (profiles execution). r < fresh s1"
      using toHdf_frame [of s imp this] assms(1) Inr by simp
    moreover have "\<forall>r < fresh s1. objects s2 r = objects s1 r"
      using toHdf_frame [of s1 imp this] assms(2) by simp
    ultimately have "map (objects s2) (profiles execution) = map (objects s1) (profiles execution)"
      by (intro map_cong refl) simp
    with Inr show ?thesis by (simp add: outcome_def snapshot_def)
  qed
qed

theorem toHdf_twice_witness:
  "toHdf exampleImported exampleResults exampleStore =
     (fst (toHdf exampleImported exampleResults exampleStore),
      snd (toHdf exampleImported exampleResults exampleStore)) \<and>
   outcome (toHdf exampleImported exampleResults
      (snd (toHdf exampleImported exampleResults exampleStore))) =
     outcome (toHdf exampleImported exampleResults exampleStore) \<and>
   outcome (fst (toHdf exampleImported exampleResults exampleStore),
      snd (toHdf exampleImported exampleResults
        (snd (toHdf exampleImported exampleResults exampleStore)))) =
     outcome (toHdf exampleImported exampleResults exampleStore) \<and>
   length (stigs (checklistObject exampleSingle)) = 1 \<and>
   outcome (toHdf exampleImported exampleSingle
      (snd (toHdf exampleImported exampleSingle exampleStore))) =
     outcome (toHdf exampleImported exampleSingle exampleStore)"
  using
    toHdf_twice [of exampleImported exampleResults exampleStore
      "fst (toHdf exampleImported exampleResults exampleStore)"
      "snd (toHdf exampleImported exampleResults exampleStore)"
      "fst (toHdf exampleImported exampleResults
          (snd (toHdf exampleImported exampleResults exampleStore)))"
      "snd (toHdf exampleImported exampleResults
          (snd (toHdf exampleImported exampleResults exampleStore)))"]
    toHdf_twice [of exampleImported exampleSingle exampleStore
      "fst (toHdf exampleImported exampleSingle exampleStore)"
      "snd (toHdf exampleImported exampleSingle exampleStore)"
      "fst (toHdf exampleImported exampleSingle
          (snd (toHdf exampleImported exampleSingle exampleStore)))"
      "snd (toHdf exampleImported exampleSingle
          (snd (toHdf exampleImported exampleSingle exampleStore)))"]
  by (simp add: exampleSingle_def)

end
